theory Spec2Isabelle
  imports Main "HOL-Library.Word"
begin

section \<open>Values of the program: bytes, text, exceptions\<close>

text \<open>
  A Python \<open>bytes\<close> object is a list of 8-bit words. A Python \<open>str\<close> is a list of
  code points (natural numbers); \<open>str_of\<close> reads a literal of the source.
  Python integers are unbounded and are modelled by \<open>int\<close>.
\<close>

type_synonym byte = "8 word"
type_synonym bytes = "byte list"
type_synonym str = "nat list"

definition str_of :: "string \<Rightarrow> str" where
  "str_of s = map of_char s"

text \<open>
  The exceptions the protocol module can raise. \<open>TFTPValueError\<close>, \<open>ProtocolError\<close>
  and \<open>Err\<close> are the classes of \<open>tftp.py\<close> (their message texts, built by f-strings,
  are not modelled; \<open>Err\<close> keeps its \<open>error_code\<close> and \<open>error_msg\<close> attributes).
  The others come from the library calls the module makes: \<open>socket.timeout\<close>,
  \<open>struct.error\<close>, the \<open>ValueError\<close> of \<open>bytes.index\<close>, and the two Unicode errors of
  \<open>str.encode\<close> and \<open>bytes.decode\<close>.
\<close>

datatype exn =
    TFTPValueError
  | ProtocolError
  | Err int str
  | SocketTimeout
  | StructError
  | ValueError
  | UnicodeEncodeError
  | UnicodeDecodeError

text \<open>
  The class hierarchy: \<open>TFTPValueError\<close> derives from \<open>ValueError\<close>, and so do
  Python's Unicode errors; \<open>ProtocolError\<close> derives from \<open>NetworkError\<close>, which
  derives from \<open>Exception\<close> directly.
\<close>

fun is_ValueError :: "exn \<Rightarrow> bool" where
  "is_ValueError TFTPValueError = True"
| "is_ValueError ValueError = True"
| "is_ValueError UnicodeEncodeError = True"
| "is_ValueError UnicodeDecodeError = True"
| "is_ValueError _ = False"

fun is_NetworkError :: "exn \<Rightarrow> bool" where
  "is_NetworkError ProtocolError = True"
| "is_NetworkError _ = False"

section \<open>Protocol constants\<close>

definition MAX_DATA_LEN :: nat where "MAX_DATA_LEN = 512"
definition MAX_BLOCK_NUMBER :: int where "MAX_BLOCK_NUMBER = 2 ^ 16 - 1"
definition DEFAULT_MODE :: str where "DEFAULT_MODE = str_of ''octet''"

definition RRQ :: int where "RRQ = 1"
definition WRQ :: int where "WRQ = 2"
definition DAT :: int where "DAT = 3"
definition ACK :: int where "ACK = 4"
definition ERR :: int where "ERR = 5"

definition ERR_NOT_DEFINED :: int where "ERR_NOT_DEFINED = 0"
definition ERR_FILE_NOT_FOUND :: int where "ERR_FILE_NOT_FOUND = 1"
definition ERR_ACCESS_VIOLATION :: int where "ERR_ACCESS_VIOLATION = 2"
definition DISK_FULL_OR_ALLOC_EXC :: int where "DISK_FULL_OR_ALLOC_EXC = 3"
definition ILLEGAL_TFTP_OP :: int where "ILLEGAL_TFTP_OP = 4"
definition UNKOWN_TRANSF_ID :: int where "UNKOWN_TRANSF_ID = 5"
definition FILE_ALREADY_EXISTS :: int where "FILE_ALREADY_EXISTS = 6"
definition NO_SUCH_USER :: int where "NO_SUCH_USER = 7"

definition ERROR_MESSAGES :: "int \<rightharpoonup> str" where
  "ERROR_MESSAGES = map_of
     [(ERR_NOT_DEFINED, str_of ''Not defined, see error message(if any).''),
      (ERR_FILE_NOT_FOUND, str_of ''File not found''),
      (ERR_ACCESS_VIOLATION, str_of ''Access violation''),
      (DISK_FULL_OR_ALLOC_EXC, str_of ''Disk full or allocation exceeded.''),
      (ILLEGAL_TFTP_OP, str_of ''Illegal TFTP operation''),
      (UNKOWN_TRANSF_ID, str_of ''Unkown Transfer ID''),
      (FILE_ALREADY_EXISTS, str_of ''File already exists''),
      (NO_SUCH_USER, str_of ''No such user'')]"

section \<open>Library functions used by the codec\<close>

subsection \<open>\<open>string.printable\<close>\<close>

text \<open>
  Python's \<open>string.printable\<close> is
  \<open>digits + ascii_letters + punctuation + whitespace\<close>. The characters that an
  Isabelle string literal cannot hold are given by their codes.
\<close>

definition string_digits :: string where
  "string_digits = ''0123456789''"

definition string_ascii_lowercase :: string where
  "string_ascii_lowercase = ''abcdefghijklmnopqrstuvwxyz''"

definition string_ascii_uppercase :: string where
  "string_ascii_uppercase = ''ABCDEFGHIJKLMNOPQRSTUVWXYZ''"

definition string_ascii_letters :: string where
  "string_ascii_letters = string_ascii_lowercase @ string_ascii_uppercase"

definition string_punctuation :: string where
  "string_punctuation =
     [CHR ''!'', CHR 0x22, CHR ''#'', CHR ''$'', CHR ''%'', CHR ''&'', CHR 0x27,
      CHR ''('', CHR '')'', CHR ''*'', CHR ''+'', CHR '','', CHR ''-'', CHR ''.'',
      CHR ''/'', CHR '':'', CHR '';'', CHR ''<'', CHR ''='', CHR ''>'', CHR ''?'',
      CHR ''@'', CHR ''['', CHR 0x5C, CHR '']'', CHR ''^'', CHR ''_'', CHR 0x60,
      CHR ''{'', CHR ''|'', CHR ''}'', CHR ''~'']"

definition string_whitespace :: string where
  "string_whitespace = [CHR '' '', CHR 0x09, CHR 0x0A, CHR 0x0D, CHR 0x0B, CHR 0x0C]"

definition string_printable :: str where
  "string_printable =
     str_of (string_digits @ string_ascii_letters @ string_punctuation @ string_whitespace)"

subsection \<open>\<open>str.encode()\<close> and \<open>bytes.decode()\<close>: strict UTF-8\<close>

definition utf8_encode_cp :: "nat \<Rightarrow> bytes option" where
  "utf8_encode_cp cp =
     (if cp < 0x80 then Some [of_nat cp]
      else if cp < 0x800 then
        Some [of_nat (0xC0 + cp div 64), of_nat (0x80 + cp mod 64)]
      else if cp < 0x10000 then
        (if 0xD800 \<le> cp \<and> cp \<le> 0xDFFF then None
         else Some [of_nat (0xE0 + cp div 4096), of_nat (0x80 + cp div 64 mod 64),
                    of_nat (0x80 + cp mod 64)])
      else if cp < 0x110000 then
        Some [of_nat (0xF0 + cp div 262144), of_nat (0x80 + cp div 4096 mod 64),
              of_nat (0x80 + cp div 64 mod 64), of_nat (0x80 + cp mod 64)]
      else None)"

fun str_encode :: "str \<Rightarrow> exn + bytes" where
  "str_encode [] = Inr []"
| "str_encode (c # cs) =
     (case utf8_encode_cp c of
        None \<Rightarrow> Inl UnicodeEncodeError
      | Some bs \<Rightarrow> (case str_encode cs of Inl e \<Rightarrow> Inl e | Inr r \<Rightarrow> Inr (bs @ r)))"

definition is_cont :: "byte \<Rightarrow> bool" where
  "is_cont b = (0x80 \<le> unat b \<and> unat b < 0xC0)"

text \<open>
  \<open>utf8_next\<close> reads one code point from the front of a byte string and returns it
  with the rest; \<open>None\<close> where Python's decoder raises (a stray continuation byte, a
  truncated or overlong sequence, a surrogate, a value above \<open>0x10FFFF\<close>).
\<close>

definition utf8_next :: "bytes \<Rightarrow> (nat \<times> bytes) option" where
  "utf8_next bs =
     (case bs of
        [] \<Rightarrow> None
      | b0 # r0 \<Rightarrow>
          let n0 = unat b0 in
          if n0 < 0x80 then Some (n0, r0)
          else if n0 < 0xC0 then None
          else if n0 < 0xE0 then
            (case r0 of
               b1 # r1 \<Rightarrow>
                 if is_cont b1 then
                   (let cp = (n0 - 0xC0) * 64 + (unat b1 - 0x80) in
                    if cp < 0x80 then None else Some (cp, r1))
                 else None
             | _ \<Rightarrow> None)
          else if n0 < 0xF0 then
            (case r0 of
               b1 # b2 # r2 \<Rightarrow>
                 if is_cont b1 \<and> is_cont b2 then
                   (let cp = (n0 - 0xE0) * 4096 + (unat b1 - 0x80) * 64 + (unat b2 - 0x80) in
                    if cp < 0x800 \<or> (0xD800 \<le> cp \<and> cp \<le> 0xDFFF) then None
                    else Some (cp, r2))
                 else None
             | _ \<Rightarrow> None)
          else if n0 < 0xF8 then
            (case r0 of
               b1 # b2 # b3 # r3 \<Rightarrow>
                 if is_cont b1 \<and> is_cont b2 \<and> is_cont b3 then
                   (let cp = (n0 - 0xF0) * 262144 + (unat b1 - 0x80) * 4096
                             + (unat b2 - 0x80) * 64 + (unat b3 - 0x80) in
                    if cp < 0x10000 \<or> 0x10FFFF < cp then None else Some (cp, r3))
                 else None
             | _ \<Rightarrow> None)
          else None)"

function bytes_decode :: "bytes \<Rightarrow> exn + str" where
  "bytes_decode bs =
     (if bs = [] then Inr []
      else case utf8_next bs of
             None \<Rightarrow> Inl UnicodeDecodeError
           | Some (cp, r) \<Rightarrow>
               (case bytes_decode r of Inl e \<Rightarrow> Inl e | Inr cps \<Rightarrow> Inr (cp # cps)))"
  by pat_completeness auto
termination
  by (relation "measure length")
     (auto simp: utf8_next_def Let_def split: list.splits if_splits)

declare bytes_decode.simps [simp del]

subsection \<open>\<open>bytes.index\<close> and slices\<close>

fun index_from :: "'a \<Rightarrow> 'a list \<Rightarrow> nat \<Rightarrow> nat option" where
  "index_from x [] i = None"
| "index_from x (y # ys) i = (if x = y then Some i else index_from x ys (Suc i))"

text \<open>\<open>packet.index(sub, start)\<close> for a one-byte \<open>sub\<close>: \<open>ValueError\<close> when absent.\<close>

definition bytes_index :: "bytes \<Rightarrow> byte \<Rightarrow> nat \<Rightarrow> exn + nat" where
  "bytes_index packet sub start =
     (case index_from sub (drop start packet) start of
        None \<Rightarrow> Inl ValueError
      | Some i \<Rightarrow> Inr i)"

text \<open>The slices \<open>packet[a:b]\<close> (with \<open>a \<le> b\<close> non-negative) and \<open>packet[a:-1]\<close>.\<close>

definition slice :: "bytes \<Rightarrow> nat \<Rightarrow> nat \<Rightarrow> bytes" where
  "slice packet a b = drop a (take b packet)"

definition slice_to_last :: "bytes \<Rightarrow> nat \<Rightarrow> bytes" where
  "slice_to_last packet a = drop a (butlast packet)"

subsection \<open>\<open>struct.pack\<close> and \<open>struct.unpack\<close> in network byte order\<close>

text \<open>
  The module uses the format characters \<open>H\<close> (unsigned 16-bit) and \<open><n>s\<close> (a byte
  string of \<open>n\<close> bytes), always behind \<open>!\<close>: big-endian, no padding.
\<close>

datatype fmt = H | S nat
datatype sval = I int | B bytes

fun struct_pack :: "fmt list \<Rightarrow> sval list \<Rightarrow> exn + bytes" where
  "struct_pack [] [] = Inr []"
| "struct_pack (H # fs) (I v # vs) =
     (if 0 \<le> v \<and> v \<le> 65535 then
        (case struct_pack fs vs of
           Inl e \<Rightarrow> Inl e
         | Inr r \<Rightarrow> Inr (of_int (v div 256) # of_int (v mod 256) # r))
      else Inl StructError)"
| "struct_pack (S n # fs) (B b # vs) =
     (case struct_pack fs vs of
        Inl e \<Rightarrow> Inl e
      | Inr r \<Rightarrow> Inr (take n b @ replicate (n - length b) 0 @ r))"
| "struct_pack _ _ = Inl StructError"

fun calcsize :: "fmt list \<Rightarrow> nat" where
  "calcsize [] = 0"
| "calcsize (H # fs) = 2 + calcsize fs"
| "calcsize (S n # fs) = n + calcsize fs"

fun unpack_items :: "fmt list \<Rightarrow> bytes \<Rightarrow> sval list" where
  "unpack_items (H # fs) (b0 # b1 # bs) =
     I (uint b0 * 256 + uint b1) # unpack_items fs bs"
| "unpack_items (S n # fs) bs = B (take n bs) # unpack_items fs (drop n bs)"
| "unpack_items _ _ = []"

definition struct_unpack :: "fmt list \<Rightarrow> bytes \<Rightarrow> exn + sval list" where
  "struct_unpack fs buffer =
     (if length buffer \<noteq> calcsize fs then Inl StructError
      else Inr (unpack_items fs buffer))"

section \<open>Packet packing and unpacking\<close>

definition is_ascii_printable :: "str \<Rightarrow> bool" where
  "is_ascii_printable txt = (set txt \<subseteq> set string_printable)"

definition pack_rrq_wrq :: "int \<Rightarrow> str \<Rightarrow> str \<Rightarrow> exn + bytes" where
  "pack_rrq_wrq opcode filename mode =
     (if \<not> is_ascii_printable filename then Inl TFTPValueError
      else case str_encode filename of
        Inl e \<Rightarrow> Inl e
      | Inr fb \<Rightarrow>
          let filename_bytes = fb @ [0] in
          (case str_encode mode of
             Inl e \<Rightarrow> Inl e
           | Inr mb \<Rightarrow>
               let mode_bytes = mb @ [0] in
               struct_pack [H, S (length filename_bytes), S (length mode_bytes)]
                 [I opcode, B filename_bytes, B mode_bytes]))"

definition pack_rrq :: "str \<Rightarrow> str \<Rightarrow> exn + bytes" where
  "pack_rrq filename mode = pack_rrq_wrq RRQ filename mode"

definition pack_wrq :: "str \<Rightarrow> str \<Rightarrow> exn + bytes" where
  "pack_wrq filename mode = pack_rrq_wrq WRQ filename mode"

definition unpack_opcode :: "bytes \<Rightarrow> exn + int" where
  "unpack_opcode packet =
     (case struct_unpack [H] (slice packet 0 2) of
        Inl e \<Rightarrow> Inl e
      | Inr (I opcode # _) \<Rightarrow>
          if opcode \<notin> {RRQ, WRQ, DAT, ACK, ERR} then Inl TFTPValueError
          else Inr opcode
      | Inr _ \<Rightarrow> Inl ValueError)"

definition unpack_rrq_wrq :: "int \<Rightarrow> bytes \<Rightarrow> exn + (str \<times> str)" where
  "unpack_rrq_wrq opcode packet =
     (case unpack_opcode packet of
        Inl e \<Rightarrow> Inl e
      | Inr received_opcode \<Rightarrow>
          if opcode \<noteq> received_opcode then Inl TFTPValueError
          else case bytes_index packet 0 2 of
            Inl e \<Rightarrow> Inl e
          | Inr delim_pos \<Rightarrow>
              (case bytes_decode (slice packet 2 delim_pos) of
                 Inl e \<Rightarrow> Inl e
               | Inr filename \<Rightarrow>
                   (case bytes_decode (slice_to_last packet (delim_pos + 1)) of
                      Inl e \<Rightarrow> Inl e
                    | Inr mode \<Rightarrow> Inr (filename, mode))))"

definition unpack_rrq :: "bytes \<Rightarrow> exn + (str \<times> str)" where
  "unpack_rrq packet = unpack_rrq_wrq RRQ packet"

definition unpack_wrq :: "bytes \<Rightarrow> exn + (str \<times> str)" where
  "unpack_wrq packet = unpack_rrq_wrq WRQ packet"

definition pack_dat :: "int \<Rightarrow> bytes \<Rightarrow> exn + bytes" where
  "pack_dat block_number data =
     (if \<not> (0 \<le> block_number \<and> block_number \<le> MAX_BLOCK_NUMBER) then Inl TFTPValueError
      else if length data > MAX_DATA_LEN then Inl TFTPValueError
      else struct_pack [H, H, S (length data)] [I DAT, I block_number, B data])"

definition unpack_dat :: "bytes \<Rightarrow> exn + (int \<times> bytes)" where
  "unpack_dat packet =
     (case struct_unpack [H, H] (slice packet 0 4) of
        Inl e \<Rightarrow> Inl e
      | Inr [I opcode, I block_number] \<Rightarrow>
          if opcode \<noteq> DAT then Inl TFTPValueError
          else Inr (block_number, drop 4 packet)
      | Inr _ \<Rightarrow> Inl ValueError)"

definition pack_ack :: "int \<Rightarrow> exn + bytes" where
  "pack_ack block_number =
     (if \<not> (0 \<le> block_number \<and> block_number \<le> MAX_BLOCK_NUMBER) then Inl TFTPValueError
      else struct_pack [H, H] [I ACK, I block_number])"

definition unpack_ack :: "bytes \<Rightarrow> exn + int" where
  "unpack_ack packet =
     (case struct_unpack [H, H] packet of
        Inl e \<Rightarrow> Inl e
      | Inr [I opcode, I block_number] \<Rightarrow>
          if opcode \<noteq> ACK then Inl TFTPValueError
          else Inr block_number
      | Inr _ \<Rightarrow> Inl ValueError)"

definition pack_err :: "int \<Rightarrow> str option \<Rightarrow> exn + bytes" where
  "pack_err error_code error_msg =
     (case ERROR_MESSAGES error_code of
        None \<Rightarrow> Inl TFTPValueError
      | Some canonical \<Rightarrow>
          let msg = (case error_msg of None \<Rightarrow> canonical | Some m \<Rightarrow> m) in
          (case str_encode msg of
             Inl e \<Rightarrow> Inl e
           | Inr mb \<Rightarrow>
               let error_msg_bytes = mb @ [0] in
               struct_pack [H, H, S (length error_msg_bytes)]
                 [I ERR, I error_code, B error_msg_bytes]))"

definition unpack_err :: "bytes \<Rightarrow> exn + (int \<times> str)" where
  "unpack_err packet =
     (case struct_unpack [H, H] (slice packet 0 4) of
        Inl e \<Rightarrow> Inl e
      | Inr [I opcode, I error_code] \<Rightarrow>
          if opcode \<noteq> ERR then Inl TFTPValueError
          else (case bytes_decode (slice_to_last packet 4) of
                  Inl e \<Rightarrow> Inl e
                | Inr msg \<Rightarrow> Inr (error_code, msg))
      | Inr _ \<Rightarrow> Inl ValueError)"

section \<open>The transfer engine\<close>

text \<open>
  A datagram is a byte string with the address it came from or goes to. The socket of
  one engine call is modelled by its inbox: the values that the successive calls of
  \<open>sock.recvfrom(DEFAULT_BUFFER_SIZE)\<close> return, in order; once the inbox is empty no
  reply arrives and \<open>recvfrom\<close> raises \<open>socket.timeout\<close>. What the engine sends,
  writes and prints is collected in the session. Opening the socket and the local file
  is taken to succeed; the progress bar and the banner line are not modelled.
\<close>

type_synonym addr = "string \<times> int"
type_synonym datagram = "bytes \<times> addr"

record session =
  block_number :: int
  out_file :: bytes
  in_file :: bytes
  sent :: "datagram list"
  stdout :: "exn list"

text \<open>
  \<open>out_file\<close> holds the bytes written so far, \<open>in_file\<close> the bytes of the local source
  not yet read, \<open>sent\<close> the datagrams given to \<open>sendto\<close> in order, and \<open>stdout\<close> the
  exceptions whose \<open>Error: ...\<close> line was printed.
\<close>

definition new_session :: "bytes \<Rightarrow> session" where
  "new_session local_source =
     \<lparr>block_number = 0, out_file = [], in_file = local_source, sent = [], stdout = []\<rparr>"

text \<open>
  How a call ends: it returns a value, raises an exception to its caller, or ends the
  process through \<open>sys.exit\<close> (\<open>SystemExit\<close> is not an \<open>Exception\<close>, so no handler of
  the module or of the shell catches it).
\<close>

datatype 'a outcome = Returned 'a | Raised exn | SysExit int

text \<open>One pass through a loop body: go round again, return, or raise.\<close>

datatype step = Continue | Return bool | Raise exn

subsection \<open>\<open>check_remote_file\<close>\<close>

text \<open>
  Every path through the body of the \<open>while True\<close> loop returns or raises, so the
  loop reads at most one datagram. The result is the outcome and the datagrams sent.
\<close>

definition check_remote_file ::
  "string \<Rightarrow> int \<Rightarrow> str \<Rightarrow> datagram list \<Rightarrow> bool outcome \<times> datagram list" where
  "check_remote_file server port remote_filename inbox =
     (case pack_rrq remote_filename DEFAULT_MODE of
        Inl e \<Rightarrow> (Raised e, [])
      | Inr rrq \<Rightarrow>
          let out = [(rrq, (server, port))] in
          (case inbox of
             [] \<Rightarrow> (Returned False, out)
           | (packet, from_addr) # later \<Rightarrow>
               (case unpack_opcode packet of
                  Inl e \<Rightarrow> (Raised e, out)
                | Inr opcode \<Rightarrow>
                    if opcode = DAT then (Returned True, out)
                    else if opcode = ERR then
                      (case unpack_err packet of
                         Inl e \<Rightarrow> (Raised e, out)
                       | Inr (error_code, msg) \<Rightarrow>
                           if error_code = ERR_FILE_NOT_FOUND then (Returned False, out)
                           else (Raised (Err error_code (str_of ''File existence check error'')), out))
                    else (Raised ProtocolError, out))))"

subsection \<open>\<open>get_file\<close>\<close>

definition get_iteration :: "session \<Rightarrow> datagram \<Rightarrow> step \<times> session" where
  "get_iteration s received =
     (let dat_packet = fst received; server_addr = snd received in
      case unpack_opcode dat_packet of
        Inl e \<Rightarrow> (Raise e, s)
      | Inr dat_opcode \<Rightarrow>
          if dat_opcode = DAT then
            (case unpack_dat dat_packet of
               Inl e \<Rightarrow> (Raise e, s)
             | Inr (dat_block_number, data) \<Rightarrow>
                 if dat_block_number = block_number s then
                   (let s1 = s\<lparr>out_file := out_file s @ data\<rparr> in
                    case pack_ack (block_number s1) of
                      Inl e \<Rightarrow> (Raise e, s1)
                    | Inr ack_packet \<Rightarrow>
                        let s2 = s1\<lparr>sent := sent s1 @ [(ack_packet, server_addr)]\<rparr>;
                            s3 = s2\<lparr>block_number := block_number s2 + 1\<rparr>
                        in if length data < MAX_DATA_LEN then (Return True, s3)
                           else (Continue, s3))
                 else (Raise ProtocolError, s))
          else if dat_opcode = ERR then
            (case unpack_err dat_packet of
               Inl e \<Rightarrow> (Raise e, s)
             | Inr (error_code, error_msg) \<Rightarrow> (Raise (Err error_code error_msg), s))
          else (Raise ProtocolError, s))"

text \<open>
  The \<open>try\<close> of \<open>get_file\<close> is inside the loop and covers \<open>recvfrom\<close> and the whole
  body: every exception is printed and the process exits with status 1.
\<close>

fun get_loop :: "session \<Rightarrow> datagram list \<Rightarrow> bool outcome \<times> session" where
  "get_loop s [] = (SysExit 1, s\<lparr>stdout := stdout s @ [SocketTimeout]\<rparr>)"
| "get_loop s (received # later) =
     (case get_iteration s received of
        (Raise e, s') \<Rightarrow> (SysExit 1, s'\<lparr>stdout := stdout s' @ [e]\<rparr>)
      | (Return r, s') \<Rightarrow> (Returned r, s')
      | (Continue, s') \<Rightarrow> get_loop s' later)"

definition get_file ::
  "string \<Rightarrow> int \<Rightarrow> str \<Rightarrow> datagram list \<Rightarrow> bool outcome \<times> session" where
  "get_file server port remote_filename inbox =
     (case pack_rrq remote_filename DEFAULT_MODE of
        Inl e \<Rightarrow> (Raised e, new_session [])
      | Inr rrq \<Rightarrow>
          get_loop ((new_session [])\<lparr>sent := [(rrq, (server, port))], block_number := 1\<rparr>) inbox)"

subsection \<open>\<open>put_file\<close>\<close>

definition put_iteration :: "session \<Rightarrow> datagram \<Rightarrow> step \<times> session" where
  "put_iteration s received =
     (let ack_packet = fst received; server_addr = snd received in
      case unpack_opcode ack_packet of
        Inl e \<Rightarrow> (Raise e, s)
      | Inr ack_opcode \<Rightarrow>
          if ack_opcode = ACK then
            (case unpack_ack ack_packet of
               Inl e \<Rightarrow> (Raise e, s)
             | Inr ack_block_number \<Rightarrow>
                 if ack_block_number = block_number s then
                   (let s1 = s\<lparr>block_number := block_number s + 1\<rparr>;
                        data = take MAX_DATA_LEN (in_file s1);
                        s2 = s1\<lparr>in_file := drop MAX_DATA_LEN (in_file s1)\<rparr>
                    in case pack_dat (block_number s2) data of
                         Inl e \<Rightarrow> (Raise e, s2)
                       | Inr dat_packet \<Rightarrow>
                           let s3 = s2\<lparr>sent := sent s2 @ [(dat_packet, server_addr)]\<rparr>
                           in if length data < MAX_DATA_LEN then (Return True, s3)
                              else (Continue, s3))
                 else (Raise ProtocolError, s))
          else if ack_opcode = ERR then
            (case unpack_err ack_packet of
               Inl e \<Rightarrow> (Raise e, s)
             | Inr (error_code, error_msg) \<Rightarrow> (Raise (Err error_code error_msg), s))
          else (Raise ProtocolError, s))"

text \<open>
  The \<open>try\<close> of \<open>put_file\<close> is around the whole function, the request encoding
  included: every exception is printed and the process exits with status 1.
\<close>

fun put_loop :: "session \<Rightarrow> datagram list \<Rightarrow> bool outcome \<times> session" where
  "put_loop s [] = (SysExit 1, s\<lparr>stdout := stdout s @ [SocketTimeout]\<rparr>)"
| "put_loop s (received # later) =
     (case put_iteration s received of
        (Raise e, s') \<Rightarrow> (SysExit 1, s'\<lparr>stdout := stdout s' @ [e]\<rparr>)
      | (Return r, s') \<Rightarrow> (Returned r, s')
      | (Continue, s') \<Rightarrow> put_loop s' later)"

definition put_file ::
  "string \<Rightarrow> int \<Rightarrow> bytes \<Rightarrow> str \<Rightarrow> datagram list \<Rightarrow> bool outcome \<times> session" where
  "put_file server port local_source remote_filename inbox =
     (case pack_wrq remote_filename DEFAULT_MODE of
        Inl e \<Rightarrow> (SysExit 1, (new_session local_source)\<lparr>stdout := [e]\<rparr>)
      | Inr wrq \<Rightarrow>
          put_loop ((new_session local_source)\<lparr>sent := [(wrq, (server, port))], block_number := 0\<rparr>)
            inbox)"

subsection \<open>A server that acknowledges block after block\<close>

text \<open>
  The replies of a server that acknowledges \<open>n\<close> consecutive blocks from block \<open>k\<close>
  on, all from one address: an input for \<open>put_file\<close>, not part of the client.
\<close>

fun ack_replies :: "int \<Rightarrow> nat \<Rightarrow> addr \<Rightarrow> datagram list" where
  "ack_replies k 0 a = []"
| "ack_replies k (Suc n) a =
     ([0, 4, of_int (k div 256), of_int (k mod 256)], a) # ack_replies (k + 1) n a"

section \<open>Properties of the library model\<close>

subsection \<open>UTF-8: decoding inverts encoding\<close>

lemma unat_byte: "n < 256 \<Longrightarrow> unat (of_nat n :: byte) = n"
  by (simp add: unat_of_nat)

lemma next1: "unat b0 < 0x80 \<Longrightarrow> utf8_next (b0 # r) = Some (unat b0, r)"
  by (simp add: utf8_next_def)

lemma next2:
  assumes "unat b0 = 0xC0 + h" "h < 32" "unat b1 = 0x80 + l" "l < 64" "0x80 \<le> h * 64 + l"
  shows "utf8_next (b0 # b1 # r) = Some (h * 64 + l, r)"
  using assms by (simp add: utf8_next_def is_cont_def Let_def)

lemma next3:
  assumes "unat b0 = 0xE0 + h" "h < 16" "unat b1 = 0x80 + m" "m < 64" "unat b2 = 0x80 + l" "l < 64"
    "0x800 \<le> h * 4096 + m * 64 + l" "\<not> (0xD800 \<le> h * 4096 + m * 64 + l \<and> h * 4096 + m * 64 + l \<le> 0xDFFF)"
  shows "utf8_next (b0 # b1 # b2 # r) = Some (h * 4096 + m * 64 + l, r)"
  using assms by (simp add: utf8_next_def is_cont_def Let_def)

lemma next4:
  assumes "unat b0 = 0xF0 + h" "h < 8" "unat b1 = 0x80 + k" "k < 64" "unat b2 = 0x80 + m" "m < 64"
    "unat b3 = 0x80 + l" "l < 64"
    "0x10000 \<le> h * 262144 + k * 4096 + m * 64 + l" "h * 262144 + k * 4096 + m * 64 + l \<le> 0x10FFFF"
  shows "utf8_next (b0 # b1 # b2 # b3 # r) = Some (h * 262144 + k * 4096 + m * 64 + l, r)"
  using assms by (simp add: utf8_next_def is_cont_def Let_def)

lemma split2: "(c::nat) div 64 * 64 + c mod 64 = c"
  by simp

lemma radix64: "(a * 64 + b) * 64 = a * 4096 + b * (64::nat)"
  by simp

lemma radix4096: "(a * 64 + b) * 4096 = a * 262144 + b * (4096::nat)"
  by simp

lemma split3: "(c::nat) div 4096 * 4096 + c div 64 mod 64 * 64 + c mod 64 = c"
proof -
  have "c div 4096 = c div 64 div 64" by (simp add: div_mult2_eq)
  then have "c div 4096 * 4096 + c div 64 mod 64 * 64 = (c div 64 div 64 * 64 + c div 64 mod 64) * 64"
    by (simp only: radix64)
  also have "\<dots> = c div 64 * 64" by simp
  finally show ?thesis by simp
qed

lemma split4:
  "(c::nat) div 262144 * 262144 + c div 4096 mod 64 * 4096 + c div 64 mod 64 * 64 + c mod 64 = c"
proof -
  have "c div 262144 = c div 4096 div 64" by (simp add: div_mult2_eq)
  then have "c div 262144 * 262144 + c div 4096 mod 64 * 4096
             = (c div 4096 div 64 * 64 + c div 4096 mod 64) * 4096"
    by (simp only: radix4096)
  also have "\<dots> = c div 4096 * 4096" by simp
  finally have "c div 262144 * 262144 + c div 4096 mod 64 * 4096 + c div 64 mod 64 * 64 + c mod 64
             = c div 4096 * 4096 + c div 64 mod 64 * 64 + c mod 64" by simp
  then show ?thesis by (simp only: split3)
qed

lemma utf8_next_encode_cp:
  assumes "utf8_encode_cp c = Some e"
  shows "utf8_next (e @ r) = Some (c, r)"
proof -
  consider (a) "c < 0x80" | (b) "0x80 \<le> c" "c < 0x800"
    | (c) "0x800 \<le> c" "c < 0x10000" | (d) "0x10000 \<le> c" "c < 0x110000" | (e) "0x110000 \<le> c"
    by linarith
  then show ?thesis
  proof cases
    case a
    then have "e = [of_nat c]" using assms by (simp add: utf8_encode_cp_def)
    moreover have "unat (of_nat c :: byte) = c" using a by (intro unat_byte) simp
    ultimately show ?thesis using a next1 [of "of_nat c" r] by simp
  next
    case b
    then have e: "e = [of_nat (0xC0 + c div 64), of_nat (0x80 + c mod 64)]"
      using assms by (simp add: utf8_encode_cp_def)
    have h: "c div 64 < 32" using b by (simp add: less_mult_imp_div_less)
    have l: "c mod 64 < 64" by simp
    have u0: "unat (of_nat (0xC0 + c div 64) :: byte) = 0xC0 + c div 64"
      using h by (intro unat_byte) linarith
    have u1: "unat (of_nat (0x80 + c mod 64) :: byte) = 0x80 + c mod 64"
      using l by (intro unat_byte) linarith
    have "0x80 \<le> c div 64 * 64 + c mod 64" using b by (simp only: split2)
    from next2 [OF u0 h u1 l this, of r] show ?thesis
      by (simp only: e split2 append_Cons append_Nil)
  next
    case c
    then have ns: "\<not> (0xD800 \<le> c \<and> c \<le> 0xDFFF)"
      using assms by (auto simp: utf8_encode_cp_def split: if_splits)
    with c have e: "e = [of_nat (0xE0 + c div 4096), of_nat (0x80 + c div 64 mod 64),
                    of_nat (0x80 + c mod 64)]"
      using assms by (auto simp: utf8_encode_cp_def split: if_splits)
    have h: "c div 4096 < 16" using c by (simp add: less_mult_imp_div_less)
    have m: "c div 64 mod 64 < 64" by simp
    have l: "c mod 64 < 64" by simp
    have u0: "unat (of_nat (0xE0 + c div 4096) :: byte) = 0xE0 + c div 4096"
      using h by (intro unat_byte) linarith
    have u1: "unat (of_nat (0x80 + c div 64 mod 64) :: byte) = 0x80 + c div 64 mod 64"
      using m by (intro unat_byte) linarith
    have u2: "unat (of_nat (0x80 + c mod 64) :: byte) = 0x80 + c mod 64"
      using l by (intro unat_byte) linarith
    have lo: "0x800 \<le> c div 4096 * 4096 + c div 64 mod 64 * 64 + c mod 64"
      using c by (simp only: split3)
    have sg: "\<not> (0xD800 \<le> c div 4096 * 4096 + c div 64 mod 64 * 64 + c mod 64
               \<and> c div 4096 * 4096 + c div 64 mod 64 * 64 + c mod 64 \<le> 0xDFFF)"
      unfolding split3 by (rule ns)
    from next3 [OF u0 h u1 m u2 l lo sg, of r] show ?thesis
      by (simp only: e split3 append_Cons append_Nil)
  next
    case d
    then have e: "e = [of_nat (0xF0 + c div 262144), of_nat (0x80 + c div 4096 mod 64),
              of_nat (0x80 + c div 64 mod 64), of_nat (0x80 + c mod 64)]"
      using assms by (auto simp: utf8_encode_cp_def split: if_splits)
    have h: "c div 262144 < 8" using d by (simp add: less_mult_imp_div_less)
    have k: "c div 4096 mod 64 < 64" by simp
    have m: "c div 64 mod 64 < 64" by simp
    have l: "c mod 64 < 64" by simp
    have u0: "unat (of_nat (0xF0 + c div 262144) :: byte) = 0xF0 + c div 262144"
      using h by (intro unat_byte) linarith
    have u1: "unat (of_nat (0x80 + c div 4096 mod 64) :: byte) = 0x80 + c div 4096 mod 64"
      using k by (intro unat_byte) linarith
    have u2: "unat (of_nat (0x80 + c div 64 mod 64) :: byte) = 0x80 + c div 64 mod 64"
      using m by (intro unat_byte) linarith
    have u3: "unat (of_nat (0x80 + c mod 64) :: byte) = 0x80 + c mod 64"
      using l by (intro unat_byte) linarith
    have lo: "0x10000 \<le> c div 262144 * 262144 + c div 4096 mod 64 * 4096 + c div 64 mod 64 * 64 + c mod 64"
      using d by (simp only: split4)
    have hi: "c div 262144 * 262144 + c div 4096 mod 64 * 4096 + c div 64 mod 64 * 64 + c mod 64 \<le> 0x10FFFF"
      using d by (simp only: split4)
    from next4 [OF u0 h u1 k u2 m u3 l lo hi, of r] show ?thesis
      by (simp only: e split4 append_Cons append_Nil)
  next
    case e
    then show ?thesis using assms by (simp add: utf8_encode_cp_def)
  qed
qed

lemma utf8_encode_cp_nonempty: "utf8_encode_cp c = Some e \<Longrightarrow> e \<noteq> []"
  by (auto simp: utf8_encode_cp_def split: if_splits)

lemma decode_encode: "str_encode s = Inr bs \<Longrightarrow> bytes_decode bs = Inr s"
proof (induction s arbitrary: bs)
  case Nil
  then show ?case by (simp add: bytes_decode.simps)
next
  case (Cons c cs)
  from Cons.prems obtain e r where e: "utf8_encode_cp c = Some e"
    and r: "str_encode cs = Inr r" and bs: "bs = e @ r"
    by (auto split: option.splits sum.splits)
  have "e @ r \<noteq> []" using utf8_encode_cp_nonempty [OF e] by simp
  moreover have "utf8_next (e @ r) = Some (c, r)" by (rule utf8_next_encode_cp [OF e])
  moreover have "bytes_decode r = Inr cs" by (rule Cons.IH [OF r])
  ultimately show ?case unfolding bs by (subst bytes_decode.simps) simp
qed

subsection \<open>The printable characters\<close>

lemmas printable_defs = string_printable_def str_of_def string_digits_def string_ascii_letters_def
  string_ascii_lowercase_def string_ascii_uppercase_def string_punctuation_def string_whitespace_def

lemma printable_sub: "\<forall>c \<in> set string_printable. (9 \<le> c \<and> c \<le> 13) \<or> (32 \<le> c \<and> c \<le> 126)"
  by (simp add: printable_defs)

lemma printable_sup: "\<forall>c \<in> set ([9..<14] @ [32..<127]). c \<in> set string_printable"
  by (simp add: printable_defs)

lemma set_string_printable: "set string_printable = {9..13} \<union> {32..126}"
proof -
  have "set ([9..<14] @ [32..<127]) = {9..13} \<union> {32..126::nat}"
    by (simp only: set_append set_upt) auto
  with printable_sup have "{9..13} \<union> {32..126} \<subseteq> set string_printable" by (metis subsetI)
  moreover from printable_sub have "set string_printable \<subseteq> {9..13} \<union> {32..126}" by auto
  ultimately show ?thesis by blast
qed

lemma is_ascii_printable_iff:
  "is_ascii_printable txt \<longleftrightarrow> (\<forall>c \<in> set txt. (9 \<le> c \<and> c \<le> 13) \<or> (32 \<le> c \<and> c \<le> 126))"
  unfolding is_ascii_printable_def set_string_printable by auto

lemma str_encode_ascii: "\<forall>c \<in> set s. c < 0x80 \<Longrightarrow> str_encode s = Inr (map of_nat s)"
  by (induction s) (simp_all add: utf8_encode_cp_def)

lemma str_encode_printable: "is_ascii_printable s \<Longrightarrow> str_encode s = Inr (map of_nat s)"
  by (rule str_encode_ascii) (auto simp: is_ascii_printable_iff)

lemma printable_no_nul: "is_ascii_printable s \<Longrightarrow> (0::byte) \<notin> set (map of_nat s)"
proof
  assume p: "is_ascii_printable s" and "(0::byte) \<in> set (map of_nat s)"
  then obtain c where c: "c \<in> set s" and z: "(of_nat c :: byte) = 0" by auto
  from p c have r: "0 < c" "c < 256" by (auto simp: is_ascii_printable_iff)
  from r(2) have "unat (of_nat c :: byte) = c" by (rule unat_byte)
  with z r(1) show False by simp
qed

subsection \<open>Searching, and 16-bit fields\<close>

lemma index_from_append: "x \<notin> set xs \<Longrightarrow> index_from x (xs @ x # ys) i = Some (i + length xs)"
  by (induction xs arbitrary: i) auto

lemma index_from_absent: "x \<notin> set xs \<Longrightarrow> index_from x xs i = None"
  by (induction xs arbitrary: i) auto

lemma u16_round_trip:
  assumes "0 \<le> v" "v \<le> 65535"
  shows "uint (of_int (v div 256) :: byte) * 256 + uint (of_int (v mod 256) :: byte) = v"
proof -
  have h: "0 \<le> v div 256" "v div 256 < 256" using assms by auto
  have l: "0 \<le> v mod 256" "v mod 256 < 256" by auto
  have "uint (of_int (v div 256) :: byte) = v div 256"
    using h by (simp add: uint_word_of_int take_bit_int_eq_self)
  moreover have "uint (of_int (v mod 256) :: byte) = v mod 256"
    using l by (simp add: uint_word_of_int take_bit_int_eq_self)
  ultimately show ?thesis by simp
qed

section \<open>The packet codec\<close>

subsection \<open>What the encoders produce\<close>

lemma struct_pack_HSS:
  "0 \<le> v \<Longrightarrow> v \<le> 65535 \<Longrightarrow>
   struct_pack [H, S (length a), S (length b)] [I v, B a, B b]
     = Inr (of_int (v div 256) # of_int (v mod 256) # a @ b)"
  by simp

lemma pack_rrq_wrq_layout:
  assumes "is_ascii_printable filename" "str_encode mode = Inr mb" "0 \<le> opcode" "opcode \<le> 65535"
  shows "pack_rrq_wrq opcode filename mode
         = Inr (of_int (opcode div 256) # of_int (opcode mod 256) # map of_nat filename @ [0] @ mb @ [0])"
proof -
  have f: "str_encode filename = Inr (map of_nat filename)"
    using assms(1) by (rule str_encode_printable)
  show ?thesis
    unfolding pack_rrq_wrq_def
    using assms struct_pack_HSS [of opcode "map of_nat filename @ [0]" "mb @ [0]"]
    by (simp add: f Let_def del: struct_pack.simps)
qed

lemma pack_dat_layout:
  assumes "0 \<le> bn" "bn \<le> 65535" "length data \<le> 512"
  shows "pack_dat bn data = Inr ([0, 3, of_int (bn div 256), of_int (bn mod 256)] @ data)"
  using assms by (simp add: pack_dat_def MAX_BLOCK_NUMBER_def MAX_DATA_LEN_def DAT_def)

lemma pack_ack_layout:
  assumes "0 \<le> bn" "bn \<le> 65535"
  shows "pack_ack bn = Inr [0, 4, of_int (bn div 256), of_int (bn mod 256)]"
  using assms by (simp add: pack_ack_def MAX_BLOCK_NUMBER_def ACK_def)

lemma ERROR_MESSAGES_dom: "ERROR_MESSAGES code \<noteq> None \<longleftrightarrow> 0 \<le> code \<and> code \<le> 7"
  unfolding ERROR_MESSAGES_def ERR_NOT_DEFINED_def ERR_FILE_NOT_FOUND_def ERR_ACCESS_VIOLATION_def
    DISK_FULL_OR_ALLOC_EXC_def ILLEGAL_TFTP_OP_def UNKOWN_TRANSF_ID_def FILE_ALREADY_EXISTS_def
    NO_SUCH_USER_def
  by auto

lemma pack_err_layout:
  assumes "0 \<le> code" "code \<le> 7" "str_encode msg = Inr mb"
  shows "pack_err code (Some msg) = Inr ([0, 5, of_int (code div 256), of_int (code mod 256)] @ mb @ [0])"
proof -
  from assms ERROR_MESSAGES_dom [of code] obtain canonical where "ERROR_MESSAGES code = Some canonical"
    by auto
  then show ?thesis using assms by (simp add: pack_err_def ERR_def)
qed

subsection \<open>What the decoders read\<close>

lemma unpack_opcode_Cons2:
  "unpack_opcode (b0 # b1 # r) =
     (if uint b0 * 256 + uint b1 \<notin> {RRQ, WRQ, DAT, ACK, ERR} then Inl TFTPValueError
      else Inr (uint b0 * 256 + uint b1))"
  by (simp add: unpack_opcode_def slice_def struct_unpack_def)

lemma unpack_opcode_short: "length packet < 2 \<Longrightarrow> unpack_opcode packet = Inl StructError"
  by (simp add: unpack_opcode_def slice_def struct_unpack_def)

lemma unpack_dat_Cons4:
  "unpack_dat (b0 # b1 # b2 # b3 # d) =
     (if uint b0 * 256 + uint b1 \<noteq> DAT then Inl TFTPValueError
      else Inr (uint b2 * 256 + uint b3, d))"
  by (simp add: unpack_dat_def slice_def struct_unpack_def)

lemma unpack_dat_short: "length packet < 4 \<Longrightarrow> unpack_dat packet = Inl StructError"
  by (simp add: unpack_dat_def slice_def struct_unpack_def)

lemma unpack_ack_4:
  "unpack_ack [b0, b1, b2, b3] =
     (if uint b0 * 256 + uint b1 \<noteq> ACK then Inl TFTPValueError
      else Inr (uint b2 * 256 + uint b3))"
  by (simp add: unpack_ack_def struct_unpack_def)

lemma unpack_ack_length: "length packet \<noteq> 4 \<Longrightarrow> unpack_ack packet = Inl StructError"
  by (simp add: unpack_ack_def struct_unpack_def)

lemma unpack_err_Cons4:
  "unpack_err (b0 # b1 # b2 # b3 # d) =
     (if uint b0 * 256 + uint b1 \<noteq> ERR then Inl TFTPValueError
      else case bytes_decode (butlast d) of
             Inl e \<Rightarrow> Inl e
           | Inr msg \<Rightarrow> Inr (uint b2 * 256 + uint b3, msg))"
  by (simp add: unpack_err_def slice_def slice_to_last_def struct_unpack_def)

lemma unpack_err_short: "length packet < 4 \<Longrightarrow> unpack_err packet = Inl StructError"
  by (simp add: unpack_err_def slice_def struct_unpack_def)

lemma unpack_rrq_wrq_request:
  assumes op: "opcode \<in> {RRQ, WRQ, DAT, ACK, ERR}"
    and fb: "(0::byte) \<notin> set fb"
    and f: "bytes_decode fb = Inr filename" and m: "bytes_decode mb = Inr mode"
  shows "unpack_rrq_wrq opcode (of_int (opcode div 256) # of_int (opcode mod 256) # fb @ [0] @ mb @ [0])
         = Inr (filename, mode)"
proof -
  define p where "p = of_int (opcode div 256) # of_int (opcode mod 256) # fb @ [0] @ mb @ [0]"
  have r: "0 \<le> opcode" "opcode \<le> 65535"
    using op by (auto simp: RRQ_def WRQ_def DAT_def ACK_def ERR_def)
  have o: "unpack_opcode p = Inr opcode"
    unfolding p_def using op by (simp only: unpack_opcode_Cons2 u16_round_trip [OF r]) simp
  have i: "bytes_index p 0 2 = Inr (2 + length fb)"
    unfolding p_def using index_from_append [OF fb, of "mb @ [0]" 2] by (simp add: bytes_index_def)
  have s1: "slice p 2 (2 + length fb) = fb" unfolding p_def by (simp add: slice_def)
  have "butlast p = of_int (opcode div 256) # of_int (opcode mod 256) # fb @ [0] @ mb"
    unfolding p_def by (simp add: butlast_append)
  then have s2: "slice_to_last p (2 + length fb + 1) = mb" by (simp add: slice_to_last_def)
  have "unpack_rrq_wrq opcode p = Inr (filename, mode)"
    by (simp only: unpack_rrq_wrq_def o i s1 s2 f m sum.case simp_thms if_False)
  then show ?thesis by (simp only: p_def)
qed

lemma str_encode_DEFAULT_MODE: "str_encode DEFAULT_MODE = Inr [111, 99, 116, 101, 116]"
  by (simp add: DEFAULT_MODE_def str_of_def utf8_encode_cp_def)

lemma length_ge4_Cons:
  assumes "4 \<le> length xs"
  obtains a b c d r where "xs = a # b # c # d # r"
proof -
  from assms obtain a r1 where 1: "xs = a # r1" "3 \<le> length r1" by (cases xs) auto
  then obtain b r2 where 2: "r1 = b # r2" "2 \<le> length r2" by (cases r1) auto
  then obtain c r3 where 3: "r2 = c # r3" "1 \<le> length r3" by (cases r2) auto
  then obtain d r where 4: "r3 = d # r" by (cases r3) auto
  from 1 2 3 4 that show ?thesis by blast
qed

subsection \<open>Round trips\<close>

lemma str_encode_error: "str_encode s = Inl e \<Longrightarrow> e = UnicodeEncodeError"
  by (induction s) (auto split: option.splits sum.splits)

lemma str_encode_cases:
  obtains bs where "str_encode s = Inr bs" | "str_encode s = Inl UnicodeEncodeError"
  by (cases "str_encode s") (auto dest: str_encode_error)

lemma pack_rrq_wrq_round_trip:
  assumes "is_ascii_printable filename" "is_ascii_printable mode"
    and op: "opcode \<in> {RRQ, WRQ, DAT, ACK, ERR}"
  shows "\<exists>p. pack_rrq_wrq opcode filename mode = Inr p
           \<and> unpack_rrq_wrq opcode p = Inr (filename, mode)"
proof -
  have r: "0 \<le> opcode" "opcode \<le> 65535"
    using op by (auto simp: RRQ_def WRQ_def DAT_def ACK_def ERR_def)
  have f: "str_encode filename = Inr (map of_nat filename)"
    and m: "str_encode mode = Inr (map of_nat mode)"
    using assms(1,2) by (simp_all add: str_encode_printable)
  have "pack_rrq_wrq opcode filename mode
        = Inr (of_int (opcode div 256) # of_int (opcode mod 256)
               # map of_nat filename @ [0] @ map of_nat mode @ [0])"
    by (rule pack_rrq_wrq_layout [OF assms(1) m r])
  moreover have "unpack_rrq_wrq opcode (of_int (opcode div 256) # of_int (opcode mod 256)
               # map of_nat filename @ [0] @ map of_nat mode @ [0]) = Inr (filename, mode)"
    by (rule unpack_rrq_wrq_request [OF op printable_no_nul [OF assms(1)]
          decode_encode [OF f] decode_encode [OF m]])
  ultimately show ?thesis by simp
qed

subsection \<open>Failing steps of the engine\<close>

lemma put_iteration_raise_sent: "put_iteration s ev = (Raise e, s') \<Longrightarrow> sent s' = sent s"
  by (auto simp: put_iteration_def Let_def split: sum.splits if_splits prod.splits)

lemma pack_rrq_wrq_not_printable:
  "\<not> is_ascii_printable filename \<Longrightarrow> pack_rrq_wrq opcode filename mode = Inl TFTPValueError"
  by (simp add: pack_rrq_wrq_def)

subsection \<open>Decoding failures\<close>

lemma bytes_decode_Nil: "bytes_decode [] = Inr []"
  by (simp add: bytes_decode.simps)

lemma bytes_decode_ascii_Cons:
  "unat b < 0x80 \<Longrightarrow>
   bytes_decode (b # bs) = (case bytes_decode bs of Inl e \<Rightarrow> Inl e | Inr cps \<Rightarrow> Inr (unat b # cps))"
  by (subst bytes_decode.simps) (simp add: next1)

lemma unpack_rrq_wrq_short:
  "length packet < 2 \<Longrightarrow> unpack_rrq_wrq opcode packet = Inl StructError"
  by (simp add: unpack_rrq_wrq_def unpack_opcode_short)

lemma unpack_rrq_wrq_mismatch:
  assumes "uint b0 * 256 + uint b1 \<noteq> expected"
  shows "unpack_rrq_wrq expected (b0 # b1 # rest) = Inl TFTPValueError"
  using assms by (simp add: unpack_rrq_wrq_def unpack_opcode_Cons2)

lemma unpack_rrq_wrq_no_nul:
  assumes "uint b0 * 256 + uint b1 = expected" "expected \<in> {RRQ, WRQ, DAT, ACK, ERR}"
    "0 \<notin> set rest"
  shows "unpack_rrq_wrq expected (b0 # b1 # rest) = Inl ValueError"
  using assms index_from_absent [of 0 rest 2]
  by (simp add: unpack_rrq_wrq_def unpack_opcode_Cons2 bytes_index_def)

section \<open>The transfer engine, step by step\<close>

subsection \<open>Reading\<close>

lemma uint_byte_pair_range:
  "0 \<le> uint (b0::byte) * 256 + uint (b1::byte) \<and> uint b0 * 256 + uint b1 \<le> 65535"
proof -
  have "uint b0 < 256" "uint b1 < 256" "0 \<le> uint b0" "0 \<le> uint b1"
    using uint_lt2p [of b0] uint_lt2p [of b1] by simp_all
  then show ?thesis by simp
qed

lemma small_pair:
  assumes "0 \<le> (x::int)" "0 \<le> y" "x * 256 + y = k" "k < 256"
  shows "x = 0 \<and> y = k"
proof -
  have "x < 1" using assms by linarith
  with assms(1) have "x = 0" by simp
  with assms(3) show ?thesis by simp
qed

lemma opcode_bytes:
  assumes "uint (b0::byte) * 256 + uint (b1::byte) = k" "k < 256"
  shows "b0 = 0 \<and> b1 = of_int k"
proof -
  have "uint b0 = 0 \<and> uint b1 = k"
    using assms by (intro small_pair) simp_all
  then have "b0 = 0" "of_int (uint b1) = (of_int k :: byte)" by (simp_all add: word_uint_eq_iff)
  then show ?thesis by simp
qed

lemma unpack_dat_Inr:
  assumes "unpack_dat packet = Inr (bn, data)"
  obtains b2 b3 where "packet = 0 # 3 # b2 # b3 # data" "bn = uint b2 * 256 + uint b3"
proof -
  have "4 \<le> length packet"
    using assms unpack_dat_short [of packet] by (cases "length packet < 4") auto
  then obtain b0 b1 b2 b3 d where p: "packet = b0 # b1 # b2 # b3 # d" by (rule length_ge4_Cons)
  with assms have o: "uint b0 * 256 + uint b1 = 3" and bn: "bn = uint b2 * 256 + uint b3"
    and d: "d = data"
    by (auto simp: unpack_dat_Cons4 DAT_def split: if_splits)
  from opcode_bytes [OF o] have "b0 = 0" "b1 = 3" by simp_all
  with that [of b2 b3] p bn d show ?thesis by simp
qed

lemma unpack_ack_Inr:
  assumes "unpack_ack packet = Inr bn"
  obtains b2 b3 where "packet = [0, 4, b2, b3]" "bn = uint b2 * 256 + uint b3"
proof -
  have l: "length packet = 4"
    using assms unpack_ack_length [of packet] by (cases "length packet = 4") auto
  then obtain b0 b1 b2 b3 d where p: "packet = b0 # b1 # b2 # b3 # d"
    by (auto intro: length_ge4_Cons [of packet])
  with l have d: "d = []" by simp
  with p assms have o: "uint b0 * 256 + uint b1 = 4" and bn: "bn = uint b2 * 256 + uint b3"
    by (auto simp: unpack_ack_4 ACK_def split: if_splits)
  from opcode_bytes [OF o] have "b0 = 0" "b1 = 4" by simp_all
  with that [of b2 b3] p bn d show ?thesis by simp
qed

lemma get_iteration_data:
  assumes "unpack_dat packet = Inr (block_number s, data)"
  shows "\<exists>ack. pack_ack (block_number s) = Inr ack
         \<and> get_iteration s (packet, from_addr)
           = (if length data < 512 then Return True else Continue,
              s\<lparr>out_file := out_file s @ data,
                sent := sent s @ [(ack, from_addr)],
                block_number := block_number s + 1\<rparr>)"
proof -
  from assms obtain b2 b3 where p: "packet = 0 # 3 # b2 # b3 # data"
    and bn: "block_number s = uint b2 * 256 + uint b3"
    by (rule unpack_dat_Inr)
  have o: "unpack_opcode packet = Inr DAT"
    by (simp add: p unpack_opcode_Cons2 RRQ_def WRQ_def DAT_def ACK_def ERR_def)
  have r: "0 \<le> block_number s" "block_number s \<le> 65535"
    using uint_byte_pair_range [of b2 b3] by (simp_all add: bn)
  have a: "pack_ack (block_number s)
           = Inr [0, 4, of_int (block_number s div 256), of_int (block_number s mod 256)]"
    by (rule pack_ack_layout [OF r])
  show ?thesis
    by (simp add: get_iteration_def o assms a MAX_DATA_LEN_def Let_def)
qed

lemma unpack_dat_range:
  assumes "unpack_dat packet = Inr (bn, data)"
  shows "0 \<le> bn \<and> bn \<le> 65535"
proof -
  from assms obtain b2 b3 where "packet = 0 # 3 # b2 # b3 # data"
    and "bn = uint b2 * 256 + uint b3"
    by (rule unpack_dat_Inr)
  then show ?thesis using uint_byte_pair_range [of b2 b3] by simp
qed

lemma get_loop_data:
  assumes "unpack_dat packet = Inr (block_number s, data)"
  shows "get_loop s ((packet, from_addr) # later)
         = (if length data < 512
            then (Returned True,
                  s\<lparr>out_file := out_file s @ data,
                    sent := sent s @ [([0, 4, of_int (block_number s div 256),
                                        of_int (block_number s mod 256)], from_addr)],
                    block_number := block_number s + 1\<rparr>)
            else get_loop
                  (s\<lparr>out_file := out_file s @ data,
                     sent := sent s @ [([0, 4, of_int (block_number s div 256),
                                         of_int (block_number s mod 256)], from_addr)],
                     block_number := block_number s + 1\<rparr>) later)"
proof -
  have r: "0 \<le> block_number s" "block_number s \<le> 65535"
    using unpack_dat_range [OF assms] by simp_all
  from get_iteration_data [OF assms, of from_addr] show ?thesis
    by (auto simp: pack_ack_layout [OF r])
qed

subsection \<open>Writing\<close>

lemma unpack_ack_range:
  assumes "unpack_ack packet = Inr bn"
  shows "0 \<le> bn \<and> bn \<le> 65535"
proof -
  from assms obtain b2 b3 where "packet = [0, 4, b2, b3]" and "bn = uint b2 * 256 + uint b3"
    by (rule unpack_ack_Inr)
  then show ?thesis using uint_byte_pair_range [of b2 b3] by simp
qed

lemma unpack_ack_opcode:
  assumes "unpack_ack packet = Inr bn"
  shows "unpack_opcode packet = Inr ACK"
proof -
  from assms obtain b2 b3 where "packet = [0, 4, b2, b3]" and "bn = uint b2 * 256 + uint b3"
    by (rule unpack_ack_Inr)
  then show ?thesis
    by (simp add: unpack_opcode_Cons2 RRQ_def WRQ_def DAT_def ACK_def ERR_def)
qed

lemma put_iteration_ack:
  assumes u: "unpack_ack packet = Inr (block_number s)" and b: "block_number s < 65535"
  shows "put_iteration s (packet, from_addr)
         = (if length (in_file s) < 512 then Return True else Continue,
            s\<lparr>block_number := block_number s + 1,
              in_file := drop 512 (in_file s),
              sent := sent s @ [([0, 3, of_int ((block_number s + 1) div 256),
                                  of_int ((block_number s + 1) mod 256)]
                                 @ take 512 (in_file s), from_addr)]\<rparr>)"
proof -
  have r: "0 \<le> block_number s + 1" "block_number s + 1 \<le> 65535"
    using unpack_ack_range [OF u] b by simp_all
  have l: "length (take 512 (in_file s)) \<le> 512" by simp
  have d: "pack_dat (block_number s + 1) (take 512 (in_file s))
           = Inr ([0, 3, of_int ((block_number s + 1) div 256),
                   of_int ((block_number s + 1) mod 256)] @ take 512 (in_file s))"
    by (rule pack_dat_layout [OF r l])
  show ?thesis
    by (simp add: put_iteration_def unpack_ack_opcode [OF u] u d MAX_DATA_LEN_def Let_def
        del: append.simps)
qed

lemma put_iteration_ack_last:
  assumes u: "unpack_ack packet = Inr (block_number s)" and b: "block_number s = 65535"
  shows "put_iteration s (packet, from_addr)
         = (Raise TFTPValueError,
            s\<lparr>block_number := 65536, in_file := drop 512 (in_file s)\<rparr>)"
  using b
  by (simp add: put_iteration_def unpack_ack_opcode [OF u] u pack_dat_def MAX_BLOCK_NUMBER_def
      MAX_DATA_LEN_def Let_def)

lemma put_loop_ack:
  assumes u: "unpack_ack packet = Inr (block_number s)" and b: "block_number s < 65535"
  shows "put_loop s ((packet, from_addr) # later)
         = (if length (in_file s) < 512
            then (Returned True,
                  s\<lparr>block_number := block_number s + 1,
                    in_file := drop 512 (in_file s),
                    sent := sent s @ [([0, 3, of_int ((block_number s + 1) div 256),
                                        of_int ((block_number s + 1) mod 256)]
                                       @ take 512 (in_file s), from_addr)]\<rparr>)
            else put_loop
                  (s\<lparr>block_number := block_number s + 1,
                     in_file := drop 512 (in_file s),
                     sent := sent s @ [([0, 3, of_int ((block_number s + 1) div 256),
                                         of_int ((block_number s + 1) mod 256)]
                                        @ take 512 (in_file s), from_addr)]\<rparr>) later)"
  by (simp add: put_iteration_ack [OF u b] del: append.simps)

lemma unpack_ack_reply:
  assumes "0 \<le> k" "k \<le> 65535"
  shows "unpack_ack [0, 4, of_int (k div 256), of_int (k mod 256)] = Inr k"
  using u16_round_trip [OF assms] by (simp add: unpack_ack_4 ACK_def)

lemma ack_replies_add:
  "ack_replies k (m + n) a = ack_replies k m a @ ack_replies (k + int m) n a"
  by (induction m arbitrary: k) (simp_all add: algebra_simps)

lemma put_loop_ack_replies:
  assumes "0 \<le> block_number s" "block_number s + int n \<le> 65535" "512 * n \<le> length (in_file s)"
  shows "\<exists>s'. put_loop s (ack_replies (block_number s) n a @ rest) = put_loop s' rest
              \<and> block_number s' = block_number s + int n
              \<and> in_file s' = drop (512 * n) (in_file s)
              \<and> stdout s' = stdout s
              \<and> length (sent s') = length (sent s) + n"
  using assms
proof (induction n arbitrary: s)
  case 0
  show ?case by (rule exI [of _ s]) simp
next
  case (Suc n)
  let ?p = "[0, 4, of_int (block_number s div 256), of_int (block_number s mod 256)]"
  define s1 where "s1 = s\<lparr>block_number := block_number s + 1,
      in_file := drop 512 (in_file s),
      sent := sent s @ [([0, 3, of_int ((block_number s + 1) div 256),
                          of_int ((block_number s + 1) mod 256)] @ take 512 (in_file s), a)]\<rparr>"
  have u: "unpack_ack ?p = Inr (block_number s)"
    using Suc.prems by (intro unpack_ack_reply) simp_all
  have b: "block_number s < 65535" using Suc.prems by simp
  have nl: "\<not> length (in_file s) < 512" using Suc.prems by simp
  have step: "put_loop s (ack_replies (block_number s) (Suc n) a @ rest)
              = put_loop s1 (ack_replies (block_number s1) n a @ rest)"
    using put_loop_ack [OF u b, of a "ack_replies (block_number s + 1) n a @ rest"] nl
    by (simp add: s1_def del: append.simps put_loop.simps) simp
  have "\<exists>s'. put_loop s1 (ack_replies (block_number s1) n a @ rest) = put_loop s' rest
              \<and> block_number s' = block_number s1 + int n
              \<and> in_file s' = drop (512 * n) (in_file s1)
              \<and> stdout s' = stdout s1
              \<and> length (sent s') = length (sent s1) + n"
    using Suc.prems by (intro Suc.IH) (simp_all add: s1_def)
  then obtain s' where "put_loop s1 (ack_replies (block_number s1) n a @ rest) = put_loop s' rest"
    and "block_number s' = block_number s1 + int n"
    and "in_file s' = drop (512 * n) (in_file s1)"
    and "stdout s' = stdout s1"
    and "length (sent s') = length (sent s1) + n"
    by blast
  then show ?case
    using step by (intro exI [of _ s']) (simp add: s1_def add.commute)
qed

lemma pack_wrq_printable:
  assumes "is_ascii_printable filename"
  shows "pack_wrq filename DEFAULT_MODE
         = Inr ([0, 2] @ map of_nat filename @ [0, 111, 99, 116, 101, 116, 0])"
  using pack_rrq_wrq_layout [OF assms str_encode_DEFAULT_MODE, of WRQ]
  by (simp add: pack_wrq_def WRQ_def)

subsection \<open>Probing\<close>

lemma pack_rrq_printable:
  assumes "is_ascii_printable filename"
  shows "pack_rrq filename DEFAULT_MODE
         = Inr ([0, 1] @ map of_nat filename @ [0, 111, 99, 116, 101, 116, 0])"
  using pack_rrq_wrq_layout [OF assms str_encode_DEFAULT_MODE, of RRQ]
  by (simp add: pack_rrq_def RRQ_def)

lemma unpack_err_opcode:
  assumes "unpack_err packet = Inr (code, msg)"
  shows "unpack_opcode packet = Inr ERR"
proof -
  have "4 \<le> length packet"
    using assms unpack_err_short [of packet] by (cases "length packet < 4") auto
  then obtain b0 b1 b2 b3 d where p: "packet = b0 # b1 # b2 # b3 # d" by (rule length_ge4_Cons)
  with assms have o: "uint b0 * 256 + uint b1 = 5"
    by (auto simp: unpack_err_Cons4 ERR_def split: if_splits)
  then show ?thesis
    by (simp add: p unpack_opcode_Cons2 RRQ_def WRQ_def DAT_def ACK_def ERR_def)
qed

subsection \<open>How the calls end\<close>

lemma get_iteration_Return: "get_iteration s ev = (Return r, s') \<Longrightarrow> r"
  by (auto simp: get_iteration_def Let_def split: sum.splits if_splits prod.splits)

lemma put_iteration_Return: "put_iteration s ev = (Return r, s') \<Longrightarrow> r"
  by (auto simp: put_iteration_def Let_def split: sum.splits if_splits prod.splits)

lemma get_loop_outcome: "fst (get_loop s inbox) \<in> {Returned True, SysExit 1}"
proof (induction inbox arbitrary: s)
  case Nil
  show ?case by simp
next
  case (Cons ev inbox)
  obtain st s' where i: "get_iteration s ev = (st, s')" by (cases "get_iteration s ev")
  show ?case
  proof (cases st)
    case Continue
    with i Cons.IH [of s'] show ?thesis by simp
  next
    case (Return r)
    with i get_iteration_Return [of s ev r s'] show ?thesis by simp
  next
    case (Raise e)
    with i show ?thesis by simp
  qed
qed

lemma put_loop_outcome: "fst (put_loop s inbox) \<in> {Returned True, SysExit 1}"
proof (induction inbox arbitrary: s)
  case Nil
  show ?case by simp
next
  case (Cons ev inbox)
  obtain st s' where i: "put_iteration s ev = (st, s')" by (cases "put_iteration s ev")
  show ?case
  proof (cases st)
    case Continue
    with i Cons.IH [of s'] show ?thesis by simp
  next
    case (Return r)
    with i put_iteration_Return [of s ev r s'] show ?thesis by simp
  next
    case (Raise e)
    with i show ?thesis by simp
  qed
qed

lemma pack_rrq_wrq_error:
  "pack_rrq_wrq opcode filename DEFAULT_MODE = Inl e \<Longrightarrow> 0 \<le> opcode \<Longrightarrow> opcode \<le> 65535
   \<Longrightarrow> e = TFTPValueError"
  using pack_rrq_wrq_layout [of filename DEFAULT_MODE _ opcode] str_encode_DEFAULT_MODE
  by (cases "is_ascii_printable filename") (auto simp: pack_rrq_wrq_not_printable)

lemma get_loop_mismatch:
  assumes "unpack_dat packet = Inr (bn, data)" "bn \<noteq> block_number s"
  shows "get_loop s ((packet, from_addr) # later)
         = (SysExit 1, s\<lparr>stdout := stdout s @ [ProtocolError]\<rparr>)"
proof -
  from assms(1) obtain b2 b3 where p: "packet = 0 # 3 # b2 # b3 # data"
    and "bn = uint b2 * 256 + uint b3"
    by (rule unpack_dat_Inr)
  have "unpack_opcode packet = Inr DAT"
    by (simp add: p unpack_opcode_Cons2 RRQ_def WRQ_def DAT_def ACK_def ERR_def)
  then show ?thesis using assms by (simp add: get_iteration_def)
qed

lemma put_loop_mismatch:
  assumes "unpack_ack packet = Inr bn" "bn \<noteq> block_number s"
  shows "put_loop s ((packet, from_addr) # later)
         = (SysExit 1, s\<lparr>stdout := stdout s @ [ProtocolError]\<rparr>)"
  using assms unpack_ack_opcode [OF assms(1)] by (simp add: put_iteration_def)

lemma get_loop_server_error:
  assumes "unpack_err packet = Inr (code, msg)"
  shows "get_loop s ((packet, from_addr) # later)
         = (SysExit 1, s\<lparr>stdout := stdout s @ [Err code msg]\<rparr>)"
  using assms unpack_err_opcode [OF assms] by (simp add: get_iteration_def DAT_def ERR_def)

lemma put_loop_server_error:
  assumes "unpack_err packet = Inr (code, msg)"
  shows "put_loop s ((packet, from_addr) # later)
         = (SysExit 1, s\<lparr>stdout := stdout s @ [Err code msg]\<rparr>)"
  using assms unpack_err_opcode [OF assms] by (simp add: put_iteration_def ACK_def ERR_def)

subsection \<open>The canonical error messages\<close>

lemma ERROR_MESSAGES_ascii:
  "ERROR_MESSAGES code = Some canonical \<Longrightarrow> \<forall>c \<in> set canonical. c < 0x80"
  by (auto simp: ERROR_MESSAGES_def ERR_NOT_DEFINED_def ERR_FILE_NOT_FOUND_def
      ERR_ACCESS_VIOLATION_def DISK_FULL_OR_ALLOC_EXC_def ILLEGAL_TFTP_OP_def
      UNKOWN_TRANSF_ID_def FILE_ALREADY_EXISTS_def NO_SUCH_USER_def str_of_def
      split: if_splits)

lemma pack_err_None_layout:
  assumes "0 \<le> code \<and> code \<le> 7"
  shows "\<exists>canonical. ERROR_MESSAGES code = Some canonical
          \<and> pack_err code None = Inr ([0, 5, 0, of_int code] @ map of_nat canonical @ [0])"
proof -
  from assms ERROR_MESSAGES_dom [of code] obtain canonical
    where c: "ERROR_MESSAGES code = Some canonical" by auto
  have e: "str_encode canonical = Inr (map of_nat canonical)"
    by (rule str_encode_ascii [OF ERROR_MESSAGES_ascii [OF c]])
  have d: "code div 256 = 0" "code mod 256 = code" using assms by simp_all
  have "pack_err code (Some canonical)
        = Inr ([0, 5, of_int (code div 256), of_int (code mod 256)] @ map of_nat canonical @ [0])"
    using assms by (intro pack_err_layout [OF _ _ e]) simp_all
  moreover have "pack_err code None = pack_err code (Some canonical)"
    using c by (simp add: pack_err_def)
  ultimately show ?thesis using c d by simp
qed

subsection \<open>The errors of an undecodable reply\<close>

lemma unpack_opcode_Inl:
  assumes "unpack_opcode packet = Inl e"
  shows "e \<in> {StructError, TFTPValueError}"
proof (cases "length packet < 2")
  case True
  with assms show ?thesis by (simp add: unpack_opcode_short)
next
  case False
  then obtain b0 r0 where 1: "packet = b0 # r0" "r0 \<noteq> []" by (cases packet) auto
  then obtain b1 r where "r0 = b1 # r" by (cases r0) auto
  with 1 assms show ?thesis by (auto simp: unpack_opcode_Cons2 split: if_splits)
qed

lemma bytes_decode_error: "bytes_decode bs = Inl e \<Longrightarrow> e = UnicodeDecodeError"
proof (induction bs rule: bytes_decode.induct)
  case (1 bs)
  show ?case
  proof (cases "bs = []")
    case True
    with "1.prems" show ?thesis by (simp add: bytes_decode_Nil)
  next
    case False
    show ?thesis
    proof (cases "utf8_next bs")
      case None
      with False "1.prems" show ?thesis by (subst (asm) bytes_decode.simps) simp
    next
      case (Some a)
      obtain cp r where a: "a = (cp, r)" by (cases a)
      from False Some a "1.prems" have "bytes_decode r = Inl e"
        by (subst (asm) bytes_decode.simps) (simp split: sum.splits)
      with "1.IH" [OF False Some a [symmetric]] show ?thesis by simp
    qed
  qed
qed

lemma unpack_err_Inl:
  assumes "unpack_opcode packet = Inr ERR" "unpack_err packet = Inl e"
  shows "e \<in> {StructError, UnicodeDecodeError}"
proof (cases "length packet < 4")
  case True
  with assms(2) show ?thesis by (simp add: unpack_err_short)
next
  case False
  then have "4 \<le> length packet" by simp
  then obtain b0 b1 b2 b3 d where p: "packet = b0 # b1 # b2 # b3 # d" by (rule length_ge4_Cons)
  from assms(1) have "uint b0 * 256 + uint b1 = ERR"
    by (simp add: p unpack_opcode_Cons2 split: if_splits)
  with assms(2) have "bytes_decode (butlast d) = Inl e"
    by (simp add: p unpack_err_Cons4 split: sum.splits)
  then show ?thesis by (simp add: bytes_decode_error)
qed

lemma check_remote_file_first:
  assumes "is_ascii_printable filename"
  shows "fst (check_remote_file server port filename ((packet, from_addr) # later))
         = (case unpack_opcode packet of
              Inl e \<Rightarrow> Raised e
            | Inr opcode \<Rightarrow>
                if opcode = DAT then Returned True
                else if opcode = ERR then
                  (case unpack_err packet of
                     Inl e \<Rightarrow> Raised e
                   | Inr (error_code, msg) \<Rightarrow>
                       if error_code = ERR_FILE_NOT_FOUND then Returned False
                       else Raised (Err error_code (str_of ''File existence check error'')))
                else Raised ProtocolError)"
  by (simp add: check_remote_file_def pack_rrq_printable [OF assms] split: sum.splits prod.splits)

section \<open>The claims\<close>

text \<open>
  C8. For valid inputs the encoders produce exactly the wire layout of the protocol,
  every 16-bit field with its high byte first: a read request is \<open>00 01\<close>, the
  filename, \<open>00\<close>, the mode, \<open>00\<close>; a write request the same behind \<open>00 02\<close>; a data
  packet is \<open>00 03\<close>, the two bytes of the block number, the payload; an
  acknowledgement is \<open>00 04\<close> and the two bytes of the block number; an error packet is
  \<open>00 05\<close>, the two bytes of the code, the message, \<open>00\<close>. A printable filename is
  encoded one byte per character.
\<close>

theorem encoders_wire_layout:
  assumes "is_ascii_printable filename" and "str_encode mode = Inr mode_bytes"
    and "0 \<le> bn" and "bn \<le> 65535" and "length payload \<le> 512"
    and "0 \<le> code" and "code \<le> 7" and "str_encode message = Inr message_bytes"
  shows "pack_rrq filename mode = Inr ([0, 1] @ map of_nat filename @ [0] @ mode_bytes @ [0])
       \<and> pack_wrq filename mode = Inr ([0, 2] @ map of_nat filename @ [0] @ mode_bytes @ [0])
       \<and> pack_dat bn payload
           = Inr ([0, 3, of_int (bn div 256), of_int (bn mod 256)] @ payload)
       \<and> pack_ack bn
           = Inr [0, 4, of_int (bn div 256), of_int (bn mod 256)]
       \<and> pack_err code (Some message)
           = Inr ([0, 5, of_int (code div 256), of_int (code mod 256)] @ message_bytes @ [0])"
proof -
  have "pack_rrq filename mode = Inr ([0, 1] @ map of_nat filename @ [0] @ mode_bytes @ [0])"
    unfolding pack_rrq_def using pack_rrq_wrq_layout [OF assms(1,2), of RRQ]
    by (simp add: RRQ_def)
  moreover have "pack_wrq filename mode = Inr ([0, 2] @ map of_nat filename @ [0] @ mode_bytes @ [0])"
    unfolding pack_wrq_def using pack_rrq_wrq_layout [OF assms(1,2), of WRQ]
    by (simp add: WRQ_def)
  moreover note pack_dat_layout [OF assms(3,4,5)] pack_ack_layout [OF assms(3,4)]
    pack_err_layout [OF assms(6,7,8)]
  ultimately show ?thesis by blast
qed

theorem encoders_wire_layout_witness:
  "pack_rrq (str_of ''a.txt'') (str_of ''octet'')
     = Inr [0, 1, 97, 46, 116, 120, 116, 0, 111, 99, 116, 101, 116, 0]
   \<and> pack_wrq (str_of ''a.txt'') (str_of ''octet'')
     = Inr [0, 2, 97, 46, 116, 120, 116, 0, 111, 99, 116, 101, 116, 0]
   \<and> pack_dat 258 [7, 8] = Inr [0, 3, 1, 2, 7, 8]
   \<and> pack_ack 258 = Inr [0, 4, 1, 2]
   \<and> pack_err 1 (Some (str_of ''gone'')) = Inr [0, 5, 0, 1, 103, 111, 110, 101, 0]"
proof -
  have f: "is_ascii_printable (str_of ''a.txt'')"
    by (simp add: is_ascii_printable_iff str_of_def)
  have m: "str_encode (str_of ''octet'') = Inr [111, 99, 116, 101, 116]"
    by (simp add: str_of_def utf8_encode_cp_def)
  have g: "str_encode (str_of ''gone'') = Inr [103, 111, 110, 101]"
    by (simp add: str_of_def utf8_encode_cp_def)
  show ?thesis
    using encoders_wire_layout [OF f m, of 258 "[7, 8]" 1 "str_of ''gone''" "[103, 111, 110, 101]"] g
    by (simp add: str_of_def)
qed

text \<open>
  C10. \<open>is_ascii_printable\<close> accepts exactly the strings whose characters all belong
  to \<open>string.printable\<close>, and that set holds the whitespace control characters tab
  (9), newline (10), vertical tab (11), form feed (12) and carriage return (13). So
  \<open>pack_rrq\<close> and \<open>pack_wrq\<close> succeed on every accepted filename, a newline or a tab
  between two accepted strings gives an accepted filename, and the empty filename is
  accepted.
\<close>

theorem printable_filenames_accepted:
  "(is_ascii_printable txt \<longleftrightarrow> (\<forall>c \<in> set txt. c \<in> set string_printable))
   \<and> {9, 10, 11, 12, 13} \<subseteq> set string_printable
   \<and> (is_ascii_printable txt \<longrightarrow>
        pack_rrq txt DEFAULT_MODE = Inr ([0, 1] @ map of_nat txt @ [0, 111, 99, 116, 101, 116, 0])
      \<and> pack_wrq txt DEFAULT_MODE = Inr ([0, 2] @ map of_nat txt @ [0, 111, 99, 116, 101, 116, 0]))
   \<and> (is_ascii_printable a \<and> is_ascii_printable b \<longrightarrow>
        is_ascii_printable (a @ [10] @ b) \<and> is_ascii_printable (a @ [9] @ b))
   \<and> is_ascii_printable []"
proof -
  have 1: "is_ascii_printable txt \<longleftrightarrow> (\<forall>c \<in> set txt. c \<in> set string_printable)"
    by (auto simp: is_ascii_printable_def)
  have 2: "{9, 10, 11, 12, 13} \<subseteq> set string_printable"
    unfolding set_string_printable by simp
  have 3: "pack_rrq txt DEFAULT_MODE = Inr ([0, 1] @ map of_nat txt @ [0, 111, 99, 116, 101, 116, 0])
      \<and> pack_wrq txt DEFAULT_MODE = Inr ([0, 2] @ map of_nat txt @ [0, 111, 99, 116, 101, 116, 0])"
    if "is_ascii_printable txt"
    using pack_rrq_wrq_layout [OF that str_encode_DEFAULT_MODE, of RRQ]
      pack_rrq_wrq_layout [OF that str_encode_DEFAULT_MODE, of WRQ]
    by (simp add: pack_rrq_def pack_wrq_def RRQ_def WRQ_def)
  have 4: "is_ascii_printable (a @ [10] @ b) \<and> is_ascii_printable (a @ [9] @ b)"
    if "is_ascii_printable a \<and> is_ascii_printable b"
    using that by (auto simp: is_ascii_printable_iff)
  have 5: "is_ascii_printable []" by (simp add: is_ascii_printable_def)
  from 1 2 3 4 5 show ?thesis by blast
qed

theorem printable_filenames_accepted_witness:
  "is_ascii_printable [97, 10, 98, 9, 99]
   \<and> pack_rrq [97, 10, 98, 9, 99] DEFAULT_MODE
       = Inr [0, 1, 97, 10, 98, 9, 99, 0, 111, 99, 116, 101, 116, 0]
   \<and> pack_wrq [] DEFAULT_MODE = Inr [0, 2, 0, 111, 99, 116, 101, 116, 0]"
proof -
  have p: "is_ascii_printable [97, 10, 98, 9, 99]"
    by (simp add: is_ascii_printable_iff)
  show ?thesis
    using p printable_filenames_accepted [of "[97, 10, 98, 9, 99]"]
      printable_filenames_accepted [of "[]"]
    by simp
qed

text \<open>
  C9. \<open>unpack_dat\<close> checks no payload length: on every byte string of at least four
  bytes that starts with \<open>00 03\<close> it returns the block number and all the bytes after
  the header. When that payload is longer than 512 bytes (the packet longer than 516),
  \<open>pack_dat\<close> rejects the decoded value, so decoding then encoding is not a round trip
  there.
\<close>

theorem unpack_dat_no_length_check:
  assumes "4 \<le> length packet" and "packet ! 0 = 0" and "packet ! 1 = 3"
  shows "unpack_dat packet = Inr (uint (packet ! 2) * 256 + uint (packet ! 3), drop 4 packet)
       \<and> (516 < length packet \<longrightarrow>
            pack_dat (uint (packet ! 2) * 256 + uint (packet ! 3)) (drop 4 packet)
              = Inl TFTPValueError)"
proof -
  from assms(1) obtain b0 b1 b2 b3 d where p: "packet = b0 # b1 # b2 # b3 # d"
    by (rule length_ge4_Cons)
  with assms(2,3) have "b0 = 0" "b1 = 3" by simp_all
  then show ?thesis
    by (simp add: p unpack_dat_Cons4 DAT_def pack_dat_def MAX_DATA_LEN_def)
qed

theorem unpack_dat_no_length_check_witness:
  "unpack_dat ([0, 3, 1, 2] @ replicate 513 7) = Inr (258, replicate 513 7)
   \<and> pack_dat 258 (replicate 513 7) = Inl TFTPValueError"
  using unpack_dat_no_length_check [of "[0, 3, 1, 2] @ replicate 513 7"]
  by simp

text \<open>
  C1. Decoding inverts encoding on every packet with valid fields: a request with a
  printable filename and a printable mode, a data packet with a block number in
  \<open>0..65535\<close> and at most 512 bytes of payload, an acknowledgement with such a block
  number, and an error packet with a code in \<open>0..7\<close> and a message that
  \<open>str.encode\<close> accepts. Each encoder succeeds there, and the matching decoder
  returns the original fields.
\<close>

theorem codec_round_trip:
  assumes "is_ascii_printable filename" and "is_ascii_printable mode"
    and "0 \<le> bn" and "bn \<le> 65535" and "length payload \<le> 512"
    and "0 \<le> code" and "code \<le> 7" and "str_encode message \<noteq> Inl UnicodeEncodeError"
  shows "(\<exists>p. pack_rrq filename mode = Inr p \<and> unpack_rrq p = Inr (filename, mode))
       \<and> (\<exists>p. pack_wrq filename mode = Inr p \<and> unpack_wrq p = Inr (filename, mode))
       \<and> (\<exists>p. pack_dat bn payload = Inr p \<and> unpack_dat p = Inr (bn, payload))
       \<and> (\<exists>p. pack_ack bn = Inr p \<and> unpack_ack p = Inr bn)
       \<and> (\<exists>p. pack_err code (Some message) = Inr p \<and> unpack_err p = Inr (code, message))"
proof -
  have rrq: "\<exists>p. pack_rrq filename mode = Inr p \<and> unpack_rrq p = Inr (filename, mode)"
    unfolding pack_rrq_def unpack_rrq_def
    by (rule pack_rrq_wrq_round_trip [OF assms(1,2)]) simp
  have wrq: "\<exists>p. pack_wrq filename mode = Inr p \<and> unpack_wrq p = Inr (filename, mode)"
    unfolding pack_wrq_def unpack_wrq_def
    by (rule pack_rrq_wrq_round_trip [OF assms(1,2)]) simp
  have b: "uint (of_int (bn div 256) :: byte) * 256 + uint (of_int (bn mod 256) :: byte) = bn"
    by (rule u16_round_trip [OF assms(3,4)])
  have dat: "\<exists>p. pack_dat bn payload = Inr p \<and> unpack_dat p = Inr (bn, payload)"
    using b by (simp add: pack_dat_layout [OF assms(3,4,5)] unpack_dat_Cons4 DAT_def)
  have ack: "\<exists>p. pack_ack bn = Inr p \<and> unpack_ack p = Inr bn"
    using b by (simp add: pack_ack_layout [OF assms(3,4)] unpack_ack_4 ACK_def)
  obtain mb where mb: "str_encode message = Inr mb"
    using assms(8) by (cases rule: str_encode_cases [of message]) auto
  have c: "uint (of_int (code div 256) :: byte) * 256 + uint (of_int (code mod 256) :: byte) = code"
    using assms(6,7) by (intro u16_round_trip) auto
  have err: "\<exists>p. pack_err code (Some message) = Inr p \<and> unpack_err p = Inr (code, message)"
    using c by (simp add: pack_err_layout [OF assms(6,7) mb] unpack_err_Cons4 ERR_def
        decode_encode [OF mb])
  from rrq wrq dat ack err show ?thesis by blast
qed

theorem codec_round_trip_witness:
  "(\<exists>p. pack_rrq (str_of ''a.txt'') (str_of ''octet'') = Inr p
        \<and> unpack_rrq p = Inr (str_of ''a.txt'', str_of ''octet''))
   \<and> (\<exists>p. pack_wrq (str_of ''a.txt'') (str_of ''octet'') = Inr p
        \<and> unpack_wrq p = Inr (str_of ''a.txt'', str_of ''octet''))
   \<and> (\<exists>p. pack_dat 258 [7, 8] = Inr p \<and> unpack_dat p = Inr (258, [7, 8]))
   \<and> (\<exists>p. pack_ack 258 = Inr p \<and> unpack_ack p = Inr 258)
   \<and> (\<exists>p. pack_err 1 (Some [233, 8364]) = Inr p \<and> unpack_err p = Inr (1, [233, 8364]))"
proof -
  have f: "is_ascii_printable (str_of ''a.txt'')" and m: "is_ascii_printable (str_of ''octet'')"
    by (simp_all add: is_ascii_printable_iff str_of_def)
  have g: "str_encode [233, 8364] \<noteq> Inl UnicodeEncodeError"
    by (simp add: utf8_encode_cp_def)
  show ?thesis
    using codec_round_trip [OF f m, of 258 "[7, 8]" 1 "[233, 8364]"] g by simp
qed

text \<open>
  C7. Encoding fails with \<open>TFTPValueError\<close>, a \<open>ValueError\<close>, before anything is sent:
  a request whose filename is not printable is rejected by \<open>pack_rrq\<close> and
  \<open>pack_wrq\<close>, and \<open>check_remote_file\<close>, \<open>get_file\<close> and \<open>put_file\<close> then end with
  no datagram sent; \<open>pack_dat\<close> rejects a block number outside \<open>0..65535\<close> and a
  payload of more than 512 bytes, and an iteration of \<open>put_file\<close> that raises has sent
  nothing; \<open>pack_err\<close> rejects every code outside \<open>0..7\<close>, and with no message
  it encodes the canonical message of the code: the packet is \<open>00 05\<close>, the two bytes
  of the code, the characters of the entry of \<open>ERROR_MESSAGES\<close> for the code, one byte
  each, and \<open>00\<close>. The eight entries are those of the source.
\<close>

theorem encoding_rejects_invalid:
  "(\<not> is_ascii_printable filename \<longrightarrow>
        pack_rrq filename mode = Inl TFTPValueError
      \<and> pack_wrq filename mode = Inl TFTPValueError
      \<and> check_remote_file server port filename inbox = (Raised TFTPValueError, [])
      \<and> get_file server port filename inbox = (Raised TFTPValueError, new_session [])
      \<and> put_file server port source filename inbox
          = (SysExit 1, (new_session source)\<lparr>stdout := [TFTPValueError]\<rparr>))
   \<and> sent (new_session source) = []
   \<and> (bn < 0 \<or> 65535 < bn \<or> 512 < length payload \<longrightarrow>
        pack_dat bn payload = Inl TFTPValueError)
   \<and> (put_iteration s received = (Raise e, s') \<longrightarrow> sent s' = sent s)
   \<and> (code < 0 \<or> 7 < code \<longrightarrow> pack_err code msg = Inl TFTPValueError)
   \<and> is_ValueError TFTPValueError
   \<and> (0 \<le> code \<and> code \<le> 7 \<longrightarrow>
        (\<exists>canonical. ERROR_MESSAGES code = Some canonical
           \<and> pack_err code None = pack_err code (Some canonical)
           \<and> pack_err code None = Inr ([0, 5, 0, of_int code] @ map of_nat canonical @ [0])))
   \<and> map ERROR_MESSAGES [0, 1, 2, 3, 4, 5, 6, 7]
       = [Some (str_of ''Not defined, see error message(if any).''),
          Some (str_of ''File not found''),
          Some (str_of ''Access violation''),
          Some (str_of ''Disk full or allocation exceeded.''),
          Some (str_of ''Illegal TFTP operation''),
          Some (str_of ''Unkown Transfer ID''),
          Some (str_of ''File already exists''),
          Some (str_of ''No such user'')]"
proof -
  have 1: "pack_rrq filename mode = Inl TFTPValueError
      \<and> pack_wrq filename mode = Inl TFTPValueError
      \<and> check_remote_file server port filename inbox = (Raised TFTPValueError, [])
      \<and> get_file server port filename inbox = (Raised TFTPValueError, new_session [])
      \<and> put_file server port source filename inbox
          = (SysExit 1, (new_session source)\<lparr>stdout := [TFTPValueError]\<rparr>)"
    if "\<not> is_ascii_printable filename"
    using that
    by (simp add: pack_rrq_def pack_wrq_def pack_rrq_wrq_not_printable check_remote_file_def
        get_file_def put_file_def)
  have 2: "sent (new_session source) = []" by (simp add: new_session_def)
  have 3: "pack_dat bn payload = Inl TFTPValueError"
    if "bn < 0 \<or> 65535 < bn \<or> 512 < length payload"
    using that by (auto simp: pack_dat_def MAX_BLOCK_NUMBER_def MAX_DATA_LEN_def)
  have 4: "sent s' = sent s" if "put_iteration s received = (Raise e, s')"
    using that by (rule put_iteration_raise_sent)
  have 5: "pack_err code msg = Inl TFTPValueError" if "code < 0 \<or> 7 < code"
  proof -
    from that ERROR_MESSAGES_dom [of code] have "ERROR_MESSAGES code = None" by auto
    then show ?thesis by (simp add: pack_err_def)
  qed
  have 6: "\<exists>canonical. ERROR_MESSAGES code = Some canonical
           \<and> pack_err code None = pack_err code (Some canonical)
           \<and> pack_err code None = Inr ([0, 5, 0, of_int code] @ map of_nat canonical @ [0])"
    if "0 \<le> code \<and> code \<le> 7"
  proof -
    from that obtain canonical where c: "ERROR_MESSAGES code = Some canonical"
      and p: "pack_err code None = Inr ([0, 5, 0, of_int code] @ map of_nat canonical @ [0])"
      using pack_err_None_layout [of code] by auto
    from c have "pack_err code None = pack_err code (Some canonical)"
      by (simp add: pack_err_def)
    with c p show ?thesis by blast
  qed
  have 7: "map ERROR_MESSAGES [0, 1, 2, 3, 4, 5, 6, 7]
       = [Some (str_of ''Not defined, see error message(if any).''),
          Some (str_of ''File not found''),
          Some (str_of ''Access violation''),
          Some (str_of ''Disk full or allocation exceeded.''),
          Some (str_of ''Illegal TFTP operation''),
          Some (str_of ''Unkown Transfer ID''),
          Some (str_of ''File already exists''),
          Some (str_of ''No such user'')]"
    by (simp add: ERROR_MESSAGES_def ERR_NOT_DEFINED_def ERR_FILE_NOT_FOUND_def
        ERR_ACCESS_VIOLATION_def DISK_FULL_OR_ALLOC_EXC_def ILLEGAL_TFTP_OP_def
        UNKOWN_TRANSF_ID_def FILE_ALREADY_EXISTS_def NO_SUCH_USER_def)
  from 1 2 3 4 5 6 7 show ?thesis by simp
qed

theorem encoding_rejects_invalid_witness:
  "pack_rrq [233] DEFAULT_MODE = Inl TFTPValueError
   \<and> pack_wrq [233] DEFAULT_MODE = Inl TFTPValueError
   \<and> check_remote_file ''host'' 69 [233] [] = (Raised TFTPValueError, [])
   \<and> pack_dat 65536 [] = Inl TFTPValueError
   \<and> pack_dat (- 1) [] = Inl TFTPValueError
   \<and> pack_dat 1 (replicate 513 0) = Inl TFTPValueError
   \<and> put_iteration ((new_session [])\<lparr>block_number := 65535\<rparr>) ([0, 4, 255, 255], (''host'', 69))
       = (Raise TFTPValueError, (new_session [])\<lparr>block_number := 65536\<rparr>)
   \<and> sent ((new_session [])\<lparr>block_number := 65536\<rparr>) = []
   \<and> pack_err 8 None = Inl TFTPValueError
   \<and> pack_err 1 None = pack_err 1 (Some (str_of ''File not found''))
   \<and> pack_err 1 None
       = Inr [0, 5, 0, 1, 70, 105, 108, 101, 32, 110, 111, 116, 32, 102, 111, 117, 110, 100, 0]"
proof -
  have n: "\<not> is_ascii_printable [233]" by (simp add: is_ascii_printable_iff)
  have c: "ERROR_MESSAGES 1 = Some (str_of ''File not found'')"
    by (simp add: ERROR_MESSAGES_def ERR_NOT_DEFINED_def ERR_FILE_NOT_FOUND_def)
  have i: "put_iteration ((new_session [])\<lparr>block_number := 65535\<rparr>) ([0, 4, 255, 255], (''host'', 69))
       = (Raise TFTPValueError, (new_session [])\<lparr>block_number := 65536\<rparr>)"
    by (simp add: put_iteration_def unpack_opcode_Cons2 unpack_ack_4 pack_dat_def new_session_def
        RRQ_def WRQ_def DAT_def ACK_def ERR_def MAX_BLOCK_NUMBER_def MAX_DATA_LEN_def)
  show ?thesis
    using n c i
      encoding_rejects_invalid [of "[233]" DEFAULT_MODE "''host''" 69 "[]" "[]" 65536 "[]"
        "(new_session [])\<lparr>block_number := 65535\<rparr>" "([0, 4, 255, 255], (''host'', 69))"
        TFTPValueError "(new_session [])\<lparr>block_number := 65536\<rparr>" 8 None]
      encoding_rejects_invalid [of "[233]" DEFAULT_MODE "''host''" 69 "[]" "[]" "- 1" "[]"
        "new_session []" "([], (''host'', 69))" TFTPValueError "new_session []" 1 None]
      encoding_rejects_invalid [of "[233]" DEFAULT_MODE "''host''" 69 "[]" "[]" 1 "replicate 513 0"
        "new_session []" "([], (''host'', 69))" TFTPValueError "new_session []" 1 None]
    by (auto simp: new_session_def str_of_def)
qed

text \<open>
  C5, as the specification states it, fails on the code: the decoders raise
  \<open>TFTPValueError\<close>, which is a \<open>ValueError\<close> and not a \<open>ProtocolError\<close>, for an
  illegal opcode and for an opcode of the wrong kind; and a request followed by further
  bytes is decoded, the extra bytes ending up in the mode.
\<close>

theorem decoders_raise_value_error_counterexample:
  "unpack_opcode [0, 9] = Inl TFTPValueError
   \<and> unpack_dat [0, 4, 0, 1] = Inl TFTPValueError
   \<and> unpack_ack [0, 3, 0, 1] = Inl TFTPValueError
   \<and> unpack_err [0, 3, 0, 1, 0] = Inl TFTPValueError
   \<and> unpack_rrq [0, 2, 97, 0, 111, 0] = Inl TFTPValueError
   \<and> TFTPValueError \<noteq> ProtocolError
   \<and> \<not> is_NetworkError TFTPValueError
   \<and> unpack_rrq [0, 1, 97, 0, 111, 0, 120, 121] = Inr ([97], [111, 0, 120])"
proof -
  have "unpack_rrq [0, 1, 97, 0, 111, 0, 120, 121] = Inr ([97], [111, 0, 120])"
    by (simp add: unpack_rrq_def unpack_rrq_wrq_def unpack_opcode_Cons2 bytes_index_def
        slice_def slice_to_last_def bytes_decode_ascii_Cons bytes_decode_Nil
        RRQ_def WRQ_def DAT_def ACK_def ERR_def)
  moreover have "unpack_rrq [0, 2, 97, 0, 111, 0] = Inl TFTPValueError"
    by (simp add: unpack_rrq_def unpack_rrq_wrq_def unpack_opcode_Cons2
        RRQ_def WRQ_def DAT_def ACK_def ERR_def)
  ultimately show ?thesis
    by (simp add: unpack_opcode_Cons2 unpack_dat_Cons4 unpack_ack_4 unpack_err_Cons4
        RRQ_def WRQ_def DAT_def ACK_def ERR_def)
qed

text \<open>
  C5, amended. Decoding fails with \<open>TFTPValueError\<close> whenever the leading two-byte
  opcode is not one of \<open>1..5\<close>, and each decoder fails with \<open>TFTPValueError\<close> when
  the opcode of a packet with a complete header is not the one the decoder expects. A
  request with no zero byte after the opcode fails with the \<open>ValueError\<close> of
  \<open>bytes.index\<close>. A packet too short for the header (or, for \<open>unpack_ack\<close>, not
  exactly four bytes long) fails with \<open>struct.error\<close>. None of these is a
  \<open>ProtocolError\<close>.
\<close>

theorem decoders_reject_opcode:
  "(uint b0 * 256 + uint b1 \<notin> {1, 2, 3, 4, 5} \<longrightarrow>
        unpack_opcode (b0 # b1 # rest) = Inl TFTPValueError)
   \<and> (uint b0 * 256 + uint b1 \<noteq> 3 \<longrightarrow>
        unpack_dat (b0 # b1 # b2 # b3 # rest) = Inl TFTPValueError)
   \<and> (uint b0 * 256 + uint b1 \<noteq> 4 \<longrightarrow>
        unpack_ack [b0, b1, b2, b3] = Inl TFTPValueError)
   \<and> (uint b0 * 256 + uint b1 \<noteq> 5 \<longrightarrow>
        unpack_err (b0 # b1 # b2 # b3 # rest) = Inl TFTPValueError)
   \<and> (uint b0 * 256 + uint b1 \<noteq> 1 \<longrightarrow> unpack_rrq (b0 # b1 # rest) = Inl TFTPValueError)
   \<and> (uint b0 * 256 + uint b1 \<noteq> 2 \<longrightarrow> unpack_wrq (b0 # b1 # rest) = Inl TFTPValueError)
   \<and> (uint b0 * 256 + uint b1 = 1 \<and> 0 \<notin> set rest \<longrightarrow>
        unpack_rrq (b0 # b1 # rest) = Inl ValueError)
   \<and> (uint b0 * 256 + uint b1 = 2 \<and> 0 \<notin> set rest \<longrightarrow>
        unpack_wrq (b0 # b1 # rest) = Inl ValueError)
   \<and> (length packet < 2 \<longrightarrow>
        unpack_opcode packet = Inl StructError
      \<and> unpack_rrq packet = Inl StructError \<and> unpack_wrq packet = Inl StructError)
   \<and> (length packet < 4 \<longrightarrow>
        unpack_dat packet = Inl StructError \<and> unpack_err packet = Inl StructError)
   \<and> (length packet \<noteq> 4 \<longrightarrow> unpack_ack packet = Inl StructError)
   \<and> is_ValueError TFTPValueError \<and> is_ValueError ValueError
   \<and> \<not> is_NetworkError TFTPValueError \<and> \<not> is_NetworkError ValueError"
  using unpack_rrq_wrq_mismatch [of b0 b1 RRQ rest] unpack_rrq_wrq_mismatch [of b0 b1 WRQ rest]
    unpack_rrq_wrq_no_nul [of b0 b1 RRQ rest] unpack_rrq_wrq_no_nul [of b0 b1 WRQ rest]
  by (simp add: unpack_opcode_Cons2 unpack_dat_Cons4 unpack_ack_4 unpack_err_Cons4
      unpack_opcode_short unpack_dat_short unpack_err_short unpack_ack_length
      unpack_rrq_wrq_short unpack_rrq_def unpack_wrq_def RRQ_def WRQ_def DAT_def ACK_def ERR_def)

theorem decoders_reject_opcode_witness:
  "unpack_opcode [0, 9, 1] = Inl TFTPValueError
   \<and> unpack_dat [0, 4, 0, 1, 7] = Inl TFTPValueError
   \<and> unpack_ack [0, 3, 0, 1] = Inl TFTPValueError
   \<and> unpack_err [0, 3, 0, 1, 0] = Inl TFTPValueError
   \<and> unpack_rrq [0, 2, 97, 0, 111, 0] = Inl TFTPValueError
   \<and> unpack_wrq [0, 1, 97, 0, 111, 0] = Inl TFTPValueError
   \<and> unpack_rrq [0, 1, 97, 98] = Inl ValueError
   \<and> unpack_wrq [0, 2, 97, 98] = Inl ValueError
   \<and> unpack_opcode [0] = Inl StructError
   \<and> unpack_rrq [0] = Inl StructError
   \<and> unpack_wrq [0] = Inl StructError
   \<and> unpack_dat [0, 3, 0] = Inl StructError
   \<and> unpack_ack [0, 4, 0, 1, 0] = Inl StructError"
  using decoders_reject_opcode [of 0 9 "[1]" 0 1 "[0, 9, 1]"]
    decoders_reject_opcode [of 0 4 "[7]" 0 1 "[0]"]
    decoders_reject_opcode [of 0 3 "[0]" 0 1 "[0, 3, 0]"]
    decoders_reject_opcode [of 0 2 "[97, 0, 111, 0]" 0 1 "[0, 4, 0, 1, 0]"]
    decoders_reject_opcode [of 0 1 "[97, 0, 111, 0]" 0 1 "[0]"]
    decoders_reject_opcode [of 0 1 "[97, 98]" 0 1 "[0]"]
    decoders_reject_opcode [of 0 2 "[97, 98]" 0 1 "[0]"]
  by simp

text \<open>
  C2. In \<open>get_file\<close>, when the datagram read is a data packet whose block number is
  the expected one, the engine appends the payload to the output file, sends the
  acknowledgement of the expected block to the address the datagram came from,
  increments the expected block number, and returns \<open>True\<close> if the payload is shorter
  than 512 bytes; otherwise it goes on with the next datagram. In particular, when the
  replies are the data packets of blocks 1 and 2 with 512 and 200 bytes, the file
  receives the 712 bytes, exactly the acknowledgements of blocks 1 and 2 are sent after
  the request, each to the sender of its data packet, and the call returns \<open>True\<close>
  without reading further.
\<close>

theorem get_file_matching_data:
  "(unpack_dat packet = Inr (block_number s, data) \<longrightarrow>
      pack_ack (block_number s)
        = Inr [0, 4, of_int (block_number s div 256), of_int (block_number s mod 256)]
    \<and> get_loop s ((packet, from_addr) # later)
        = (if length data < 512
           then (Returned True,
                 s\<lparr>out_file := out_file s @ data,
                   sent := sent s @ [([0, 4, of_int (block_number s div 256),
                                       of_int (block_number s mod 256)], from_addr)],
                   block_number := block_number s + 1\<rparr>)
           else get_loop
                 (s\<lparr>out_file := out_file s @ data,
                    sent := sent s @ [([0, 4, of_int (block_number s div 256),
                                        of_int (block_number s mod 256)], from_addr)],
                    block_number := block_number s + 1\<rparr>) later))
   \<and> (is_ascii_printable filename \<and> length d1 = 512 \<and> length d2 = 200 \<longrightarrow>
        get_file server port filename (([0, 3, 0, 1] @ d1, a1) # ([0, 3, 0, 2] @ d2, a2) # rest)
          = (Returned True,
             \<lparr>block_number = 3, out_file = d1 @ d2, in_file = [],
              sent = [([0, 1] @ map of_nat filename @ [0, 111, 99, 116, 101, 116, 0], (server, port)),
                      ([0, 4, 0, 1], a1), ([0, 4, 0, 2], a2)],
              stdout = []\<rparr>)
      \<and> length (d1 @ d2) = 712)"
proof -
  have step: "pack_ack (block_number s)
        = Inr [0, 4, of_int (block_number s div 256), of_int (block_number s mod 256)]"
    if u: "unpack_dat packet = Inr (block_number s, data)"
  proof -
    have "0 \<le> block_number s" "block_number s \<le> 65535"
      using unpack_dat_range [OF u] by simp_all
    then show ?thesis by (rule pack_ack_layout)
  qed
  have run: "get_file server port filename (([0, 3, 0, 1] @ d1, a1) # ([0, 3, 0, 2] @ d2, a2) # rest)
          = (Returned True,
             \<lparr>block_number = 3, out_file = d1 @ d2, in_file = [],
              sent = [([0, 1] @ map of_nat filename @ [0, 111, 99, 116, 101, 116, 0], (server, port)),
                      ([0, 4, 0, 1], a1), ([0, 4, 0, 2], a2)],
              stdout = []\<rparr>)"
    if f: "is_ascii_printable filename" and l1: "length d1 = 512" and l2: "length d2 = 200"
  proof -
    have rrq: "pack_rrq filename DEFAULT_MODE
               = Inr ([0, 1] @ map of_nat filename @ [0, 111, 99, 116, 101, 116, 0])"
      using pack_rrq_wrq_layout [OF f str_encode_DEFAULT_MODE, of RRQ]
      by (simp add: pack_rrq_def RRQ_def)
    define s0 where "s0 = (new_session [])\<lparr>sent := [([0, 1] @ map of_nat filename
        @ [0, 111, 99, 116, 101, 116, 0], (server, port))], block_number := 1\<rparr>"
    have u1: "unpack_dat ([0, 3, 0, 1] @ d1) = Inr (block_number s0, d1)"
      by (simp add: unpack_dat_Cons4 DAT_def s0_def)
    define s1 where "s1 = s0\<lparr>out_file := out_file s0 @ d1,
        sent := sent s0 @ [([0, 4, of_int (block_number s0 div 256),
                             of_int (block_number s0 mod 256)], a1)],
        block_number := block_number s0 + 1\<rparr>"
    have u2: "unpack_dat ([0, 3, 0, 2] @ d2) = Inr (block_number s1, d2)"
      by (simp add: unpack_dat_Cons4 DAT_def s1_def s0_def)
    have "get_loop s0 (([0, 3, 0, 1] @ d1, a1) # ([0, 3, 0, 2] @ d2, a2) # rest)
          = get_loop s1 (([0, 3, 0, 2] @ d2, a2) # rest)"
      unfolding s1_def by (subst get_loop_data [OF u1]) (simp add: l1)
    also have "\<dots> = (Returned True,
        s1\<lparr>out_file := out_file s1 @ d2,
           sent := sent s1 @ [([0, 4, of_int (block_number s1 div 256),
                                of_int (block_number s1 mod 256)], a2)],
           block_number := block_number s1 + 1\<rparr>)"
      by (subst get_loop_data [OF u2]) (simp add: l2)
    finally show ?thesis
      by (simp add: get_file_def rrq s0_def [symmetric]) (simp add: s1_def s0_def new_session_def)
  qed
  from step get_loop_data run show ?thesis by simp
qed

theorem get_file_matching_data_witness:
  "get_file ''host'' 69 (str_of ''f'')
     [([0, 3, 0, 1] @ replicate 512 7, (''host'', 4001)),
      ([0, 3, 0, 2] @ replicate 200 8, (''host'', 4001))]
   = (Returned True,
      \<lparr>block_number = 3, out_file = replicate 512 7 @ replicate 200 8, in_file = [],
       sent = [([0, 1, 102, 0, 111, 99, 116, 101, 116, 0], (''host'', 69)),
               ([0, 4, 0, 1], (''host'', 4001)), ([0, 4, 0, 2], (''host'', 4001))],
       stdout = []\<rparr>)
   \<and> length (replicate 512 (7::byte) @ replicate 200 8) = 712
   \<and> get_loop ((new_session [])\<lparr>block_number := 5\<rparr>) [([0, 3, 0, 5, 1, 2], (''host'', 4001))]
     = (Returned True,
        \<lparr>block_number = 6, out_file = [1, 2], in_file = [],
         sent = [([0, 4, 0, 5], (''host'', 4001))], stdout = []\<rparr>)"
proof -
  have f: "is_ascii_printable (str_of ''f'')"
    by (simp add: is_ascii_printable_iff str_of_def)
  have u: "unpack_dat [0, 3, 0, 5, 1, 2]
           = Inr (block_number ((new_session [])\<lparr>block_number := 5\<rparr>), [1, 2])"
    by (simp add: unpack_dat_Cons4 DAT_def)
  show ?thesis
    using f u
      get_file_matching_data [of "[0, 3, 0, 5, 1, 2]" "(new_session [])\<lparr>block_number := 5\<rparr>"
        "[1, 2]" "(''host'', 4001)" "[]" "str_of ''f''" "replicate 512 7" "replicate 200 8"
        "''host''" 69 "(''host'', 4001)" "(''host'', 4001)" "[]"]
    by (simp add: str_of_def new_session_def)
qed

text \<open>
  C3, as the specification states it, fails on the code at the last block number. The
  acknowledgement of block 65535 matches the expected block number, but the engine then
  asks \<open>pack_dat\<close> for block 65536, which is rejected: no data packet is sent and
  the process exits with status 1. A source of 65535 full blocks, acknowledged block
  after block, reaches that state: the request and 65535 data packets are sent, and
  the 65536th acknowledgement ends the call.
\<close>

theorem put_file_last_block_counterexample:
  "unpack_ack [0, 4, 255, 255] = Inr 65535
   \<and> put_iteration ((new_session [])\<lparr>block_number := 65535\<rparr>) ([0, 4, 255, 255], (''host'', 4001))
       = (Raise TFTPValueError, (new_session [])\<lparr>block_number := 65536\<rparr>)
   \<and> fst (put_file ''host'' 69 (replicate 33553920 0) (str_of ''f'')
            (ack_replies 0 65536 (''host'', 4001))) = SysExit 1
   \<and> stdout (snd (put_file ''host'' 69 (replicate 33553920 0) (str_of ''f'')
            (ack_replies 0 65536 (''host'', 4001)))) = [TFTPValueError]
   \<and> length (sent (snd (put_file ''host'' 69 (replicate 33553920 0) (str_of ''f'')
            (ack_replies 0 65536 (''host'', 4001))))) = 65536"
proof -
  have u: "unpack_ack [0, 4, 255, 255] = Inr 65535"
    by (simp add: unpack_ack_4 ACK_def)
  have i: "put_iteration ((new_session [])\<lparr>block_number := 65535\<rparr>)
             ([0, 4, 255, 255], (''host'', 4001))
           = (Raise TFTPValueError, (new_session [])\<lparr>block_number := 65536\<rparr>)"
    using put_iteration_ack_last [of "[0, 4, 255, 255]" "(new_session [])\<lparr>block_number := 65535\<rparr>"
        "(''host'', 4001)"] u
    by (simp add: new_session_def)
  have f: "is_ascii_printable (str_of ''f'')"
    by (simp add: is_ascii_printable_iff str_of_def)
  define s0 where "s0 = (new_session (replicate 33553920 0))\<lparr>sent := [([0, 2] @ map of_nat (str_of ''f'')
      @ [0, 111, 99, 116, 101, 116, 0], (''host'', 69))], block_number := 0\<rparr>"
  have s0: "block_number s0 = 0" "length (in_file s0) = 33553920" "stdout s0 = []"
    "length (sent s0) = 1"
    by (simp_all add: s0_def new_session_def)
  have split: "ack_replies 0 65536 (''host'', 4001)
               = ack_replies (block_number s0) 65535 (''host'', 4001)
                 @ [([0, 4, 255, 255], (''host'', 4001))]"
    using ack_replies_add [of 0 65535 1 "(''host'', 4001)"] by (simp add: s0)
  obtain s' where run: "put_loop s0 (ack_replies (block_number s0) 65535 (''host'', 4001)
                          @ [([0, 4, 255, 255], (''host'', 4001))])
                        = put_loop s' [([0, 4, 255, 255], (''host'', 4001))]"
    and bn: "block_number s' = 65535" and out: "stdout s' = []"
    and n: "length (sent s') = 65536"
    using put_loop_ack_replies [of s0 65535 "(''host'', 4001)" "[([0, 4, 255, 255], (''host'', 4001))]"]
    by (auto simp: s0)
  have u': "unpack_ack [0, 4, 255, 255] = Inr (block_number s')" by (simp add: u bn)
  have last: "put_loop s' [([0, 4, 255, 255], (''host'', 4001))]
              = (SysExit 1, s'\<lparr>block_number := 65536, in_file := drop 512 (in_file s'),
                                stdout := [TFTPValueError]\<rparr>)"
    by (simp add: put_iteration_ack_last [OF u' bn] out)
  have "put_file ''host'' 69 (replicate 33553920 0) (str_of ''f'') (ack_replies 0 65536 (''host'', 4001))
        = (SysExit 1, s'\<lparr>block_number := 65536, in_file := drop 512 (in_file s'),
                          stdout := [TFTPValueError]\<rparr>)"
    by (simp only: put_file_def pack_wrq_printable [OF f] sum.case s0_def [symmetric] split run last)
  then show ?thesis using u i n by simp
qed

text \<open>
  C3, amended. In \<open>put_file\<close>, when the datagram read is an acknowledgement whose
  block number is the expected one and is below 65535, the engine increments the
  expected block number, reads up to 512 bytes from the local source, sends them as the
  data packet of the new block number to the address the acknowledgement came from, and
  returns \<open>True\<close> at once if the chunk is shorter than 512 bytes; otherwise it goes on
  with the next datagram. In particular, for a source of 700 bytes and the
  acknowledgements of blocks 0 and 1, exactly two data packets follow the request,
  blocks 1 and 2 with 512 and 188 bytes, and the call returns \<open>True\<close> without reading
  a third acknowledgement.
\<close>

theorem put_file_matching_ack:
  "(unpack_ack packet = Inr (block_number s) \<and> block_number s < 65535 \<longrightarrow>
      put_loop s ((packet, from_addr) # later)
        = (if length (in_file s) < 512
           then (Returned True,
                 s\<lparr>block_number := block_number s + 1,
                   in_file := drop 512 (in_file s),
                   sent := sent s @ [([0, 3, of_int ((block_number s + 1) div 256),
                                       of_int ((block_number s + 1) mod 256)]
                                      @ take 512 (in_file s), from_addr)]\<rparr>)
           else put_loop
                 (s\<lparr>block_number := block_number s + 1,
                    in_file := drop 512 (in_file s),
                    sent := sent s @ [([0, 3, of_int ((block_number s + 1) div 256),
                                        of_int ((block_number s + 1) mod 256)]
                                       @ take 512 (in_file s), from_addr)]\<rparr>) later))
   \<and> (is_ascii_printable filename \<and> length source = 700 \<longrightarrow>
        put_file server port source filename (([0, 4, 0, 0], a0) # ([0, 4, 0, 1], a1) # rest)
          = (Returned True,
             \<lparr>block_number = 2, out_file = [], in_file = [],
              sent = [([0, 2] @ map of_nat filename @ [0, 111, 99, 116, 101, 116, 0], (server, port)),
                      ([0, 3, 0, 1] @ take 512 source, a0),
                      ([0, 3, 0, 2] @ drop 512 source, a1)],
              stdout = []\<rparr>)
      \<and> length (take 512 source) = 512 \<and> length (drop 512 source) = 188)"
proof -
  have run: "put_file server port source filename (([0, 4, 0, 0], a0) # ([0, 4, 0, 1], a1) # rest)
          = (Returned True,
             \<lparr>block_number = 2, out_file = [], in_file = [],
              sent = [([0, 2] @ map of_nat filename @ [0, 111, 99, 116, 101, 116, 0], (server, port)),
                      ([0, 3, 0, 1] @ take 512 source, a0),
                      ([0, 3, 0, 2] @ drop 512 source, a1)],
              stdout = []\<rparr>)"
    if f: "is_ascii_printable filename" and l: "length source = 700"
  proof -
    define s0 where "s0 = (new_session source)\<lparr>sent := [([0, 2] @ map of_nat filename
        @ [0, 111, 99, 116, 101, 116, 0], (server, port))], block_number := 0\<rparr>"
    have u0: "unpack_ack [0, 4, 0, 0] = Inr (block_number s0)"
      by (simp add: unpack_ack_4 ACK_def s0_def)
    have b0: "block_number s0 < 65535" by (simp add: s0_def)
    define s1 where "s1 = s0\<lparr>block_number := block_number s0 + 1,
        in_file := drop 512 (in_file s0),
        sent := sent s0 @ [([0, 3, of_int ((block_number s0 + 1) div 256),
                             of_int ((block_number s0 + 1) mod 256)]
                            @ take 512 (in_file s0), a0)]\<rparr>"
    have u1: "unpack_ack [0, 4, 0, 1] = Inr (block_number s1)"
      by (simp add: unpack_ack_4 ACK_def s1_def s0_def)
    have b1: "block_number s1 < 65535" by (simp add: s1_def s0_def)
    have l0: "\<not> length (in_file s0) < 512" by (simp add: s0_def new_session_def l)
    have l1: "length (in_file s1) < 512" by (simp add: s1_def s0_def new_session_def l)
    have "put_loop s0 (([0, 4, 0, 0], a0) # ([0, 4, 0, 1], a1) # rest)
          = put_loop s1 (([0, 4, 0, 1], a1) # rest)"
      unfolding s1_def using l0 by (subst put_loop_ack [OF u0 b0]) simp
    also have "\<dots> = (Returned True,
        s1\<lparr>block_number := block_number s1 + 1,
           in_file := drop 512 (in_file s1),
           sent := sent s1 @ [([0, 3, of_int ((block_number s1 + 1) div 256),
                                of_int ((block_number s1 + 1) mod 256)]
                               @ take 512 (in_file s1), a1)]\<rparr>)"
      using l1 by (subst put_loop_ack [OF u1 b1]) simp
    finally show ?thesis
      by (simp add: put_file_def pack_wrq_printable [OF f] s0_def [symmetric])
         (simp add: s1_def s0_def new_session_def l)
  qed
  have len: "length (take 512 source) = 512 \<and> length (drop 512 source) = 188"
    if "length source = 700"
    using that by simp
  from put_loop_ack run len show ?thesis by simp
qed

theorem put_file_matching_ack_witness:
  "put_file ''host'' 69 (replicate 700 7) (str_of ''f'')
     [([0, 4, 0, 0], (''host'', 4001)), ([0, 4, 0, 1], (''host'', 4001))]
   = (Returned True,
      \<lparr>block_number = 2, out_file = [], in_file = [],
       sent = [([0, 2, 102, 0, 111, 99, 116, 101, 116, 0], (''host'', 69)),
               ([0, 3, 0, 1] @ replicate 512 7, (''host'', 4001)),
               ([0, 3, 0, 2] @ replicate 188 7, (''host'', 4001))],
       stdout = []\<rparr>)
   \<and> put_loop ((new_session [1, 2])\<lparr>block_number := 5\<rparr>) [([0, 4, 0, 5], (''host'', 4001))]
     = (Returned True,
        \<lparr>block_number = 6, out_file = [], in_file = [],
         sent = [([0, 3, 0, 6, 1, 2], (''host'', 4001))], stdout = []\<rparr>)"
proof -
  have f: "is_ascii_printable (str_of ''f'')"
    by (simp add: is_ascii_printable_iff str_of_def)
  have u: "unpack_ack [0, 4, 0, 5]
           = Inr (block_number ((new_session [1, 2])\<lparr>block_number := 5\<rparr>))"
    by (simp add: unpack_ack_4 ACK_def)
  show ?thesis
    using f u
      put_file_matching_ack [of "[0, 4, 0, 5]" "(new_session [1, 2])\<lparr>block_number := 5\<rparr>"
        "(''host'', 4001)" "[]" "str_of ''f''" "replicate 700 7"
        "''host''" 69 "(''host'', 4001)" "(''host'', 4001)" "[]"]
    by (simp add: str_of_def new_session_def)
qed

text \<open>
  C4, as the specification states it, fails on the code: with no reply at all, a call
  whose filename is not printable does not return \<open>False\<close>; the request cannot be
  encoded and \<open>TFTPValueError\<close> is raised to the caller.
\<close>

theorem check_remote_file_bad_name_counterexample:
  "check_remote_file ''host'' 69 [233] [] = (Raised TFTPValueError, [])"
proof -
  have "\<not> is_ascii_printable [233]" by (simp add: is_ascii_printable_iff)
  then show ?thesis
    by (simp add: check_remote_file_def pack_rrq_def pack_rrq_wrq_not_printable)
qed

text \<open>
  C4, amended. For a printable filename, \<open>check_remote_file\<close> sends the read request
  and decides on the first reply alone. It returns \<open>True\<close> when the opcode of the reply
  is that of a data packet; \<open>False\<close> when the reply decodes as an error packet with
  code 1; it raises \<open>Err\<close> with the code of the packet when the reply decodes as an
  error packet with another code, and \<open>ProtocolError\<close> for the other legal opcodes.
  A reply that cannot be decoded raises the error of the decoder to the caller:
  \<open>struct.error\<close> or \<open>TFTPValueError\<close> when the opcode cannot be read, \<open>struct.error\<close>
  or \<open>UnicodeDecodeError\<close> when the opcode is that of an error packet and the rest
  cannot be read. With no reply before the timeout it returns \<open>False\<close>, on each call.
\<close>

theorem check_remote_file_replies:
  "is_ascii_printable filename \<longrightarrow>
     (unpack_opcode packet = Inr DAT \<longrightarrow>
        check_remote_file server port filename ((packet, from_addr) # later)
          = (Returned True,
             [([0, 1] @ map of_nat filename @ [0, 111, 99, 116, 101, 116, 0], (server, port))]))
   \<and> (unpack_err packet = Inr (ERR_FILE_NOT_FOUND, msg) \<longrightarrow>
        check_remote_file server port filename ((packet, from_addr) # later)
          = (Returned False,
             [([0, 1] @ map of_nat filename @ [0, 111, 99, 116, 101, 116, 0], (server, port))]))
   \<and> (unpack_err packet = Inr (code, msg) \<and> code \<noteq> ERR_FILE_NOT_FOUND \<longrightarrow>
        check_remote_file server port filename ((packet, from_addr) # later)
          = (Raised (Err code (str_of ''File existence check error'')),
             [([0, 1] @ map of_nat filename @ [0, 111, 99, 116, 101, 116, 0], (server, port))]))
   \<and> (unpack_opcode packet = Inr opcode \<and> opcode \<noteq> DAT \<and> opcode \<noteq> ERR \<longrightarrow>
        check_remote_file server port filename ((packet, from_addr) # later)
          = (Raised ProtocolError,
             [([0, 1] @ map of_nat filename @ [0, 111, 99, 116, 101, 116, 0], (server, port))]))
   \<and> (unpack_opcode packet = Inl e \<longrightarrow>
        check_remote_file server port filename ((packet, from_addr) # later)
          = (Raised e,
             [([0, 1] @ map of_nat filename @ [0, 111, 99, 116, 101, 116, 0], (server, port))]))
   \<and> (unpack_opcode packet = Inr ERR \<and> unpack_err packet = Inl e \<longrightarrow>
        check_remote_file server port filename ((packet, from_addr) # later)
          = (Raised e,
             [([0, 1] @ map of_nat filename @ [0, 111, 99, 116, 101, 116, 0], (server, port))]))
   \<and> check_remote_file server port filename []
        = (Returned False,
           [([0, 1] @ map of_nat filename @ [0, 111, 99, 116, 101, 116, 0], (server, port))])
   \<and> (unpack_opcode packet = Inl e \<longrightarrow> e \<in> {StructError, TFTPValueError})
   \<and> (unpack_opcode packet = Inr ERR \<and> unpack_err packet = Inl e \<longrightarrow>
        e \<in> {StructError, UnicodeDecodeError})"
proof (intro impI)
  assume f: "is_ascii_printable filename"
  note rrq = pack_rrq_printable [OF f]
  have 1: "check_remote_file server port filename ((packet, from_addr) # later)
          = (Returned True,
             [([0, 1] @ map of_nat filename @ [0, 111, 99, 116, 101, 116, 0], (server, port))])"
    if "unpack_opcode packet = Inr DAT"
    using that by (simp add: check_remote_file_def rrq)
  have 2: "check_remote_file server port filename ((packet, from_addr) # later)
          = (Returned False,
             [([0, 1] @ map of_nat filename @ [0, 111, 99, 116, 101, 116, 0], (server, port))])"
    if "unpack_err packet = Inr (ERR_FILE_NOT_FOUND, msg)"
    using that unpack_err_opcode [OF that]
    by (simp add: check_remote_file_def rrq DAT_def ERR_def)
  have 3: "check_remote_file server port filename ((packet, from_addr) # later)
          = (Raised (Err code (str_of ''File existence check error'')),
             [([0, 1] @ map of_nat filename @ [0, 111, 99, 116, 101, 116, 0], (server, port))])"
    if "unpack_err packet = Inr (code, msg) \<and> code \<noteq> ERR_FILE_NOT_FOUND"
    using that unpack_err_opcode [of packet code msg]
    by (simp add: check_remote_file_def rrq DAT_def ERR_def)
  have 4: "check_remote_file server port filename ((packet, from_addr) # later)
          = (Raised ProtocolError,
             [([0, 1] @ map of_nat filename @ [0, 111, 99, 116, 101, 116, 0], (server, port))])"
    if "unpack_opcode packet = Inr opcode \<and> opcode \<noteq> DAT \<and> opcode \<noteq> ERR"
    using that by (simp add: check_remote_file_def rrq)
  have 5: "check_remote_file server port filename ((packet, from_addr) # later)
          = (Raised e,
             [([0, 1] @ map of_nat filename @ [0, 111, 99, 116, 101, 116, 0], (server, port))])"
    if "unpack_opcode packet = Inl e"
    using that by (simp add: check_remote_file_def rrq)
  have 6: "check_remote_file server port filename ((packet, from_addr) # later)
          = (Raised e,
             [([0, 1] @ map of_nat filename @ [0, 111, 99, 116, 101, 116, 0], (server, port))])"
    if "unpack_opcode packet = Inr ERR \<and> unpack_err packet = Inl e"
    using that by (simp add: check_remote_file_def rrq DAT_def ERR_def)
  have 7: "check_remote_file server port filename []
        = (Returned False,
           [([0, 1] @ map of_nat filename @ [0, 111, 99, 116, 101, 116, 0], (server, port))])"
    by (simp add: check_remote_file_def rrq)
  have 8: "e \<in> {StructError, TFTPValueError}" if "unpack_opcode packet = Inl e"
    using that by (rule unpack_opcode_Inl)
  have 9: "e \<in> {StructError, UnicodeDecodeError}"
    if "unpack_opcode packet = Inr ERR \<and> unpack_err packet = Inl e"
    using that unpack_err_Inl [of packet e] by simp
  from 1 2 3 4 5 6 7 8 9 show "(unpack_opcode packet = Inr DAT \<longrightarrow>
        check_remote_file server port filename ((packet, from_addr) # later)
          = (Returned True,
             [([0, 1] @ map of_nat filename @ [0, 111, 99, 116, 101, 116, 0], (server, port))]))
   \<and> (unpack_err packet = Inr (ERR_FILE_NOT_FOUND, msg) \<longrightarrow>
        check_remote_file server port filename ((packet, from_addr) # later)
          = (Returned False,
             [([0, 1] @ map of_nat filename @ [0, 111, 99, 116, 101, 116, 0], (server, port))]))
   \<and> (unpack_err packet = Inr (code, msg) \<and> code \<noteq> ERR_FILE_NOT_FOUND \<longrightarrow>
        check_remote_file server port filename ((packet, from_addr) # later)
          = (Raised (Err code (str_of ''File existence check error'')),
             [([0, 1] @ map of_nat filename @ [0, 111, 99, 116, 101, 116, 0], (server, port))]))
   \<and> (unpack_opcode packet = Inr opcode \<and> opcode \<noteq> DAT \<and> opcode \<noteq> ERR \<longrightarrow>
        check_remote_file server port filename ((packet, from_addr) # later)
          = (Raised ProtocolError,
             [([0, 1] @ map of_nat filename @ [0, 111, 99, 116, 101, 116, 0], (server, port))]))
   \<and> (unpack_opcode packet = Inl e \<longrightarrow>
        check_remote_file server port filename ((packet, from_addr) # later)
          = (Raised e,
             [([0, 1] @ map of_nat filename @ [0, 111, 99, 116, 101, 116, 0], (server, port))]))
   \<and> (unpack_opcode packet = Inr ERR \<and> unpack_err packet = Inl e \<longrightarrow>
        check_remote_file server port filename ((packet, from_addr) # later)
          = (Raised e,
             [([0, 1] @ map of_nat filename @ [0, 111, 99, 116, 101, 116, 0], (server, port))]))
   \<and> check_remote_file server port filename []
        = (Returned False,
           [([0, 1] @ map of_nat filename @ [0, 111, 99, 116, 101, 116, 0], (server, port))])
   \<and> (unpack_opcode packet = Inl e \<longrightarrow> e \<in> {StructError, TFTPValueError})
   \<and> (unpack_opcode packet = Inr ERR \<and> unpack_err packet = Inl e \<longrightarrow>
        e \<in> {StructError, UnicodeDecodeError})"
    by simp
qed

theorem check_remote_file_replies_witness:
  "check_remote_file ''host'' 69 (str_of ''f'') [([0, 3, 0, 1, 7], (''host'', 4001))]
     = (Returned True, [([0, 1, 102, 0, 111, 99, 116, 101, 116, 0], (''host'', 69))])
   \<and> check_remote_file ''host'' 69 (str_of ''f'') [([0, 5, 0, 1, 110, 111, 0], (''host'', 4001))]
     = (Returned False, [([0, 1, 102, 0, 111, 99, 116, 101, 116, 0], (''host'', 69))])
   \<and> check_remote_file ''host'' 69 (str_of ''f'') [([0, 5, 0, 2, 110, 111, 0], (''host'', 4001))]
     = (Raised (Err 2 (str_of ''File existence check error'')),
        [([0, 1, 102, 0, 111, 99, 116, 101, 116, 0], (''host'', 69))])
   \<and> check_remote_file ''host'' 69 (str_of ''f'') [([0, 4, 0, 0], (''host'', 4001))]
     = (Raised ProtocolError, [([0, 1, 102, 0, 111, 99, 116, 101, 116, 0], (''host'', 69))])
   \<and> check_remote_file ''host'' 69 (str_of ''f'') [([0, 9], (''host'', 4001))]
     = (Raised TFTPValueError, [([0, 1, 102, 0, 111, 99, 116, 101, 116, 0], (''host'', 69))])
   \<and> check_remote_file ''host'' 69 (str_of ''f'') [([0, 5, 0, 1, 255, 0], (''host'', 4001))]
     = (Raised UnicodeDecodeError, [([0, 1, 102, 0, 111, 99, 116, 101, 116, 0], (''host'', 69))])
   \<and> check_remote_file ''host'' 69 (str_of ''f'') [([0, 5, 0], (''host'', 4001))]
     = (Raised StructError, [([0, 1, 102, 0, 111, 99, 116, 101, 116, 0], (''host'', 69))])
   \<and> check_remote_file ''host'' 69 (str_of ''f'') []
     = (Returned False, [([0, 1, 102, 0, 111, 99, 116, 101, 116, 0], (''host'', 69))])"
proof -
  have f: "is_ascii_printable (str_of ''f'')"
    by (simp add: is_ascii_printable_iff str_of_def)
  have d: "unpack_opcode [0, 3, 0, 1, 7] = Inr DAT"
    and a: "unpack_opcode [0, 4, 0, 0] = Inr 4"
    and b: "unpack_opcode [0, 9] = Inl TFTPValueError"
    and o1: "unpack_opcode [0, 5, 0, 1, 255, 0] = Inr ERR"
    and o2: "unpack_opcode [0, 5, 0] = Inr ERR"
    by (simp_all add: unpack_opcode_Cons2 RRQ_def WRQ_def DAT_def ACK_def ERR_def)
  have e1: "unpack_err [0, 5, 0, 1, 110, 111, 0] = Inr (ERR_FILE_NOT_FOUND, [110, 111])"
    and e2: "unpack_err [0, 5, 0, 2, 110, 111, 0] = Inr (2, [110, 111])"
    by (simp_all add: unpack_err_Cons4 ERR_def ERR_FILE_NOT_FOUND_def bytes_decode_ascii_Cons
        bytes_decode_Nil)
  have "bytes_decode [255] = Inl UnicodeDecodeError"
    by (subst bytes_decode.simps) (simp add: utf8_next_def)
  then have e3: "unpack_err [0, 5, 0, 1, 255, 0] = Inl UnicodeDecodeError"
    by (simp add: unpack_err_Cons4 ERR_def)
  have e4: "unpack_err [0, 5, 0] = Inl StructError"
    by (simp add: unpack_err_short)
  note t = check_remote_file_replies [where filename = "str_of ''f''" and server = "''host''"
      and port = 69 and from_addr = "(''host'', 4001)" and later = "[]" and msg = "[110, 111]"
      and code = 2 and opcode = 4]
  show ?thesis
    using f d a b o1 o2 e1 e2 e3 e4
      t [where packet = "[0, 3, 0, 1, 7]" and e = TFTPValueError]
      t [where packet = "[0, 5, 0, 1, 110, 111, 0]" and e = TFTPValueError]
      t [where packet = "[0, 5, 0, 2, 110, 111, 0]" and e = TFTPValueError]
      t [where packet = "[0, 4, 0, 0]" and e = TFTPValueError]
      t [where packet = "[0, 9]" and e = TFTPValueError]
      t [where packet = "[0, 5, 0, 1, 255, 0]" and e = UnicodeDecodeError]
      t [where packet = "[0, 5, 0]" and e = StructError]
    by (simp add: str_of_def DAT_def ERR_def ERR_FILE_NOT_FOUND_def)
qed

text \<open>
  C6, as the specification states it, fails on the code: a read transfer that receives
  block 3 where block 1 is expected does not raise \<open>ProtocolError\<close> to its caller. The
  handler inside \<open>get_file\<close> prints the error and calls \<open>sys.exit(1)\<close>. A write
  transfer that gets no reply ends the same way.
\<close>

theorem get_file_exits_counterexample:
  "get_file ''host'' 69 (str_of ''f'') [([0, 3, 0, 3, 7, 8], (''host'', 4001))]
     = (SysExit 1,
        \<lparr>block_number = 1, out_file = [], in_file = [],
         sent = [([0, 1, 102, 0, 111, 99, 116, 101, 116, 0], (''host'', 69))],
         stdout = [ProtocolError]\<rparr>)
   \<and> fst (get_file ''host'' 69 (str_of ''f'') [([0, 3, 0, 3, 7, 8], (''host'', 4001))])
       \<noteq> Raised ProtocolError
   \<and> put_file ''host'' 69 [] (str_of ''f'') []
     = (SysExit 1,
        \<lparr>block_number = 0, out_file = [], in_file = [],
         sent = [([0, 2, 102, 0, 111, 99, 116, 101, 116, 0], (''host'', 69))],
         stdout = [SocketTimeout]\<rparr>)"
proof -
  have f: "is_ascii_printable (str_of ''f'')"
    by (simp add: is_ascii_printable_iff str_of_def)
  have u: "unpack_dat [0, 3, 0, 3, 7, 8] = Inr (3, [7, 8])"
    by (simp add: unpack_dat_Cons4 DAT_def)
  have g: "get_file ''host'' 69 (str_of ''f'') [([0, 3, 0, 3, 7, 8], (''host'', 4001))]
     = (SysExit 1,
        \<lparr>block_number = 1, out_file = [], in_file = [],
         sent = [([0, 1, 102, 0, 111, 99, 116, 101, 116, 0], (''host'', 69))],
         stdout = [ProtocolError]\<rparr>)"
    by (simp add: get_file_def pack_rrq_printable [OF f] get_loop_mismatch [OF u]
        new_session_def del: get_loop.simps) (simp add: str_of_def)
  have p: "put_file ''host'' 69 [] (str_of ''f'') []
     = (SysExit 1,
        \<lparr>block_number = 0, out_file = [], in_file = [],
         sent = [([0, 2, 102, 0, 111, 99, 116, 101, 116, 0], (''host'', 69))],
         stdout = [SocketTimeout]\<rparr>)"
    by (simp add: put_file_def pack_wrq_printable [OF f] new_session_def) (simp add: str_of_def)
  from g p show ?thesis by simp
qed

text \<open>
  C6, amended. \<open>get_file\<close> and \<open>put_file\<close> handle every failure of a running
  transfer themselves: the exception is printed and the process ends with exit status
  1, with nothing further written or sent. This holds for a reply whose opcode cannot be
  read or is illegal, a data packet, acknowledgement or error packet that cannot be
  decoded, a data packet or acknowledgement with the wrong block number, an error
  packet of the server, a legal opcode of another kind, the data block after block
  65535 that \<open>pack_dat\<close> rejects, and a timeout. So \<open>put_file\<close> only ever returns
  \<open>True\<close> or exits, also for a filename that is not printable; \<open>get_file\<close> does so
  too, except that for such a filename \<open>TFTPValueError\<close> reaches its caller.
  \<open>check_remote_file\<close> never exits the process: it raises to its caller the error of
  an undecodable reply, \<open>Err\<close> for an error packet with a code other than 1,
  \<open>ProtocolError\<close> for a legal opcode of another kind, and \<open>TFTPValueError\<close> for a
  filename that is not printable.
\<close>

theorem engine_failure_signalling:
  "fst (get_file server port filename inbox) \<in> {Returned True, SysExit 1, Raised TFTPValueError}
   \<and> (is_ascii_printable filename \<longrightarrow>
        fst (get_file server port filename inbox) \<in> {Returned True, SysExit 1})
   \<and> fst (put_file server port source filename inbox) \<in> {Returned True, SysExit 1}
   \<and> (\<forall>n. fst (check_remote_file server port filename inbox) \<noteq> SysExit n)
   \<and> (unpack_opcode packet = Inl e \<longrightarrow>
        get_loop s ((packet, from_addr) # later) = (SysExit 1, s\<lparr>stdout := stdout s @ [e]\<rparr>)
      \<and> put_loop s ((packet, from_addr) # later) = (SysExit 1, s\<lparr>stdout := stdout s @ [e]\<rparr>)
      \<and> (is_ascii_printable filename \<longrightarrow> fst (check_remote_file server port filename ((packet, from_addr) # later)) = Raised e))
   \<and> (unpack_opcode packet = Inr DAT \<and> unpack_dat packet = Inl e \<longrightarrow>
        get_loop s ((packet, from_addr) # later) = (SysExit 1, s\<lparr>stdout := stdout s @ [e]\<rparr>))
   \<and> (unpack_dat packet = Inr (bn, data) \<and> bn \<noteq> block_number s \<longrightarrow>
        get_loop s ((packet, from_addr) # later) = (SysExit 1, s\<lparr>stdout := stdout s @ [ProtocolError]\<rparr>))
   \<and> (unpack_opcode packet = Inr ACK \<and> unpack_ack packet = Inl e \<longrightarrow>
        put_loop s ((packet, from_addr) # later) = (SysExit 1, s\<lparr>stdout := stdout s @ [e]\<rparr>))
   \<and> (unpack_ack packet = Inr bn \<and> bn \<noteq> block_number s \<longrightarrow>
        put_loop s ((packet, from_addr) # later) = (SysExit 1, s\<lparr>stdout := stdout s @ [ProtocolError]\<rparr>))
   \<and> (unpack_ack packet = Inr (block_number s) \<and> block_number s = 65535 \<longrightarrow>
        put_loop s ((packet, from_addr) # later)
          = (SysExit 1, s\<lparr>block_number := 65536, in_file := drop 512 (in_file s),
                           stdout := stdout s @ [TFTPValueError]\<rparr>))
   \<and> (unpack_opcode packet = Inr ERR \<and> unpack_err packet = Inl e \<longrightarrow>
        get_loop s ((packet, from_addr) # later) = (SysExit 1, s\<lparr>stdout := stdout s @ [e]\<rparr>)
      \<and> put_loop s ((packet, from_addr) # later) = (SysExit 1, s\<lparr>stdout := stdout s @ [e]\<rparr>)
      \<and> (is_ascii_printable filename \<longrightarrow> fst (check_remote_file server port filename ((packet, from_addr) # later)) = Raised e))
   \<and> (unpack_err packet = Inr (code, msg) \<longrightarrow>
        get_loop s ((packet, from_addr) # later) = (SysExit 1, s\<lparr>stdout := stdout s @ [Err code msg]\<rparr>)
      \<and> put_loop s ((packet, from_addr) # later) = (SysExit 1, s\<lparr>stdout := stdout s @ [Err code msg]\<rparr>)
      \<and> (is_ascii_printable filename \<and> code \<noteq> ERR_FILE_NOT_FOUND \<longrightarrow>
          fst (check_remote_file server port filename ((packet, from_addr) # later))
            = Raised (Err code (str_of ''File existence check error''))))
   \<and> (unpack_opcode packet = Inr opcode \<and> opcode \<noteq> DAT \<and> opcode \<noteq> ERR \<longrightarrow>
        get_loop s ((packet, from_addr) # later) = (SysExit 1, s\<lparr>stdout := stdout s @ [ProtocolError]\<rparr>)
      \<and> (is_ascii_printable filename \<longrightarrow> fst (check_remote_file server port filename ((packet, from_addr) # later)) = Raised ProtocolError))
   \<and> (unpack_opcode packet = Inr opcode \<and> opcode \<noteq> ACK \<and> opcode \<noteq> ERR \<longrightarrow>
        put_loop s ((packet, from_addr) # later) = (SysExit 1, s\<lparr>stdout := stdout s @ [ProtocolError]\<rparr>))
   \<and> get_loop s [] = (SysExit 1, s\<lparr>stdout := stdout s @ [SocketTimeout]\<rparr>)
   \<and> put_loop s [] = (SysExit 1, s\<lparr>stdout := stdout s @ [SocketTimeout]\<rparr>)
   \<and> (\<not> is_ascii_printable filename \<longrightarrow>
        get_file server port filename inbox = (Raised TFTPValueError, new_session [])
      \<and> put_file server port source filename inbox
          = (SysExit 1, (new_session source)\<lparr>stdout := [TFTPValueError]\<rparr>)
      \<and> fst (check_remote_file server port filename inbox) = Raised TFTPValueError)"
proof -
  have g: "fst (get_file server port filename inbox)
           \<in> {Returned True, SysExit 1, Raised TFTPValueError}"
  proof (cases "pack_rrq filename DEFAULT_MODE")
    case (Inl e)
    then have "e = TFTPValueError"
      using pack_rrq_wrq_error [of RRQ filename e] by (simp add: pack_rrq_def RRQ_def)
    with Inl show ?thesis by (simp add: get_file_def)
  next
    case (Inr rrq)
    then show ?thesis
      using get_loop_outcome
        [of "(new_session [])\<lparr>sent := [(rrq, (server, port))], block_number := 1\<rparr>" inbox]
      by (auto simp: get_file_def)
  qed
  have g': "fst (get_file server port filename inbox) \<in> {Returned True, SysExit 1}"
    if f: "is_ascii_printable filename"
    using get_loop_outcome
    by (simp add: get_file_def pack_rrq_printable [OF f])
  have p: "fst (put_file server port source filename inbox) \<in> {Returned True, SysExit 1}"
  proof (cases "pack_wrq filename DEFAULT_MODE")
    case (Inl e)
    then show ?thesis by (simp add: put_file_def)
  next
    case (Inr wrq)
    then show ?thesis
      using put_loop_outcome
        [of "(new_session source)\<lparr>sent := [(wrq, (server, port))], block_number := 0\<rparr>" inbox]
      by (auto simp: put_file_def)
  qed
  have c: "\<forall>n. fst (check_remote_file server port filename inbox) \<noteq> SysExit n"
    by (auto simp: check_remote_file_def Let_def split: sum.splits list.splits prod.splits)
  have h0: "get_loop s ((packet, from_addr) # later) = (SysExit 1, s\<lparr>stdout := stdout s @ [e]\<rparr>)
      \<and> put_loop s ((packet, from_addr) # later) = (SysExit 1, s\<lparr>stdout := stdout s @ [e]\<rparr>)
      \<and> (is_ascii_printable filename \<longrightarrow> fst (check_remote_file server port filename ((packet, from_addr) # later)) = Raised e)"
    if "unpack_opcode packet = Inl e"
    using that by (simp add: get_iteration_def put_iteration_def check_remote_file_first)
  have h1: "get_loop s ((packet, from_addr) # later) = (SysExit 1, s\<lparr>stdout := stdout s @ [e]\<rparr>)"
    if "unpack_opcode packet = Inr DAT \<and> unpack_dat packet = Inl e"
    using that by (simp add: get_iteration_def)
  have h2: "get_loop s ((packet, from_addr) # later) = (SysExit 1, s\<lparr>stdout := stdout s @ [ProtocolError]\<rparr>)"
    if "unpack_dat packet = Inr (bn, data) \<and> bn \<noteq> block_number s"
    using that get_loop_mismatch [of packet bn data s from_addr later] by simp
  have h3: "put_loop s ((packet, from_addr) # later) = (SysExit 1, s\<lparr>stdout := stdout s @ [e]\<rparr>)"
    if "unpack_opcode packet = Inr ACK \<and> unpack_ack packet = Inl e"
    using that by (simp add: put_iteration_def)
  have h4: "put_loop s ((packet, from_addr) # later) = (SysExit 1, s\<lparr>stdout := stdout s @ [ProtocolError]\<rparr>)"
    if "unpack_ack packet = Inr bn \<and> bn \<noteq> block_number s"
    using that put_loop_mismatch [of packet bn s from_addr later] by simp
  have h5: "put_loop s ((packet, from_addr) # later)
          = (SysExit 1, s\<lparr>block_number := 65536, in_file := drop 512 (in_file s),
                           stdout := stdout s @ [TFTPValueError]\<rparr>)"
    if "unpack_ack packet = Inr (block_number s) \<and> block_number s = 65535"
    using that put_iteration_ack_last [of packet s from_addr] by simp
  have h6: "get_loop s ((packet, from_addr) # later) = (SysExit 1, s\<lparr>stdout := stdout s @ [e]\<rparr>)
      \<and> put_loop s ((packet, from_addr) # later) = (SysExit 1, s\<lparr>stdout := stdout s @ [e]\<rparr>)
      \<and> (is_ascii_printable filename \<longrightarrow> fst (check_remote_file server port filename ((packet, from_addr) # later)) = Raised e)"
    if "unpack_opcode packet = Inr ERR \<and> unpack_err packet = Inl e"
    using that
    by (simp add: get_iteration_def put_iteration_def check_remote_file_first DAT_def ACK_def ERR_def)
  have h7: "get_loop s ((packet, from_addr) # later) = (SysExit 1, s\<lparr>stdout := stdout s @ [Err code msg]\<rparr>)
      \<and> put_loop s ((packet, from_addr) # later) = (SysExit 1, s\<lparr>stdout := stdout s @ [Err code msg]\<rparr>)
      \<and> (is_ascii_printable filename \<and> code \<noteq> ERR_FILE_NOT_FOUND \<longrightarrow>
          fst (check_remote_file server port filename ((packet, from_addr) # later))
            = Raised (Err code (str_of ''File existence check error'')))"
    if "unpack_err packet = Inr (code, msg)"
    using that get_loop_server_error [OF that, of s from_addr later]
      put_loop_server_error [OF that, of s from_addr later] unpack_err_opcode [OF that]
    by (simp add: check_remote_file_first DAT_def ERR_def)
  have h8: "get_loop s ((packet, from_addr) # later) = (SysExit 1, s\<lparr>stdout := stdout s @ [ProtocolError]\<rparr>)
      \<and> (is_ascii_printable filename \<longrightarrow> fst (check_remote_file server port filename ((packet, from_addr) # later)) = Raised ProtocolError)"
    if "unpack_opcode packet = Inr opcode \<and> opcode \<noteq> DAT \<and> opcode \<noteq> ERR"
    using that by (simp add: get_iteration_def check_remote_file_first)
  have h9: "put_loop s ((packet, from_addr) # later) = (SysExit 1, s\<lparr>stdout := stdout s @ [ProtocolError]\<rparr>)"
    if "unpack_opcode packet = Inr opcode \<and> opcode \<noteq> ACK \<and> opcode \<noteq> ERR"
    using that by (simp add: put_iteration_def)
  have t: "get_loop s [] = (SysExit 1, s\<lparr>stdout := stdout s @ [SocketTimeout]\<rparr>)
      \<and> put_loop s [] = (SysExit 1, s\<lparr>stdout := stdout s @ [SocketTimeout]\<rparr>)"
    by simp
  have n: "get_file server port filename inbox = (Raised TFTPValueError, new_session [])
      \<and> put_file server port source filename inbox
          = (SysExit 1, (new_session source)\<lparr>stdout := [TFTPValueError]\<rparr>)
      \<and> fst (check_remote_file server port filename inbox) = Raised TFTPValueError"
    if "\<not> is_ascii_printable filename"
    using that
    by (simp add: pack_rrq_def pack_wrq_def pack_rrq_wrq_not_printable check_remote_file_def
        get_file_def put_file_def)
  from g g' p c t show ?thesis
    by (intro conjI impI h0 h1 h2 h3 h4 h5 h6 h7 h8 h9 n) simp_all
qed

theorem engine_failure_signalling_witness:
  "get_loop \<lparr>block_number = 2, out_file = [1], in_file = [], sent = [], stdout = []\<rparr> [([0, 9], (''host'', 4001))]
     = (SysExit 1, \<lparr>block_number = 2, out_file = [1], in_file = [], sent = [], stdout = [TFTPValueError]\<rparr>)
   \<and> put_loop \<lparr>block_number = 2, out_file = [], in_file = [1], sent = [], stdout = []\<rparr> [([0, 9], (''host'', 4001))]
     = (SysExit 1, \<lparr>block_number = 2, out_file = [], in_file = [1], sent = [], stdout = [TFTPValueError]\<rparr>)
   \<and> fst (check_remote_file ''host'' 69 (str_of ''f'') [([0, 9], (''host'', 4001))]) = Raised TFTPValueError
   \<and> get_loop \<lparr>block_number = 2, out_file = [1], in_file = [], sent = [], stdout = []\<rparr> [([0, 3, 0], (''host'', 4001))]
     = (SysExit 1, \<lparr>block_number = 2, out_file = [1], in_file = [], sent = [], stdout = [StructError]\<rparr>)
   \<and> get_loop \<lparr>block_number = 2, out_file = [1], in_file = [], sent = [], stdout = []\<rparr> [([0, 3, 0, 3, 7, 8], (''host'', 4001))]
     = (SysExit 1, \<lparr>block_number = 2, out_file = [1], in_file = [], sent = [], stdout = [ProtocolError]\<rparr>)
   \<and> put_loop \<lparr>block_number = 2, out_file = [], in_file = [1], sent = [], stdout = []\<rparr> [([0, 4, 0], (''host'', 4001))]
     = (SysExit 1, \<lparr>block_number = 2, out_file = [], in_file = [1], sent = [], stdout = [StructError]\<rparr>)
   \<and> put_loop \<lparr>block_number = 2, out_file = [], in_file = [1], sent = [], stdout = []\<rparr> [([0, 4, 0, 5], (''host'', 4001))]
     = (SysExit 1, \<lparr>block_number = 2, out_file = [], in_file = [1], sent = [], stdout = [ProtocolError]\<rparr>)
   \<and> put_loop \<lparr>block_number = 65535, out_file = [], in_file = [1], sent = [], stdout = []\<rparr> [([0, 4, 255, 255], (''host'', 4001))]
     = (SysExit 1, \<lparr>block_number = 65536, out_file = [], in_file = [], sent = [], stdout = [TFTPValueError]\<rparr>)
   \<and> get_loop \<lparr>block_number = 2, out_file = [1], in_file = [], sent = [], stdout = []\<rparr> [([0, 5, 0, 1, 255, 0], (''host'', 4001))]
     = (SysExit 1, \<lparr>block_number = 2, out_file = [1], in_file = [], sent = [], stdout = [UnicodeDecodeError]\<rparr>)
   \<and> fst (check_remote_file ''host'' 69 (str_of ''f'') [([0, 5, 0, 1, 255, 0], (''host'', 4001))]) = Raised UnicodeDecodeError
   \<and> put_loop \<lparr>block_number = 2, out_file = [], in_file = [1], sent = [], stdout = []\<rparr> [([0, 5, 0, 1, 255, 0], (''host'', 4001))]
     = (SysExit 1, \<lparr>block_number = 2, out_file = [], in_file = [1], sent = [], stdout = [UnicodeDecodeError]\<rparr>)
   \<and> get_loop \<lparr>block_number = 2, out_file = [1], in_file = [], sent = [], stdout = []\<rparr> [([0, 5, 0, 2, 110, 111, 0], (''host'', 4001))]
     = (SysExit 1, \<lparr>block_number = 2, out_file = [1], in_file = [], sent = [], stdout = [Err 2 [110, 111]]\<rparr>)
   \<and> fst (check_remote_file ''host'' 69 (str_of ''f'') [([0, 5, 0, 2, 110, 111, 0], (''host'', 4001))]) = Raised (Err 2 (str_of ''File existence check error''))
   \<and> put_loop \<lparr>block_number = 2, out_file = [], in_file = [1], sent = [], stdout = []\<rparr> [([0, 5, 0, 2, 110, 111, 0], (''host'', 4001))]
     = (SysExit 1, \<lparr>block_number = 2, out_file = [], in_file = [1], sent = [], stdout = [Err 2 [110, 111]]\<rparr>)
   \<and> get_loop \<lparr>block_number = 2, out_file = [1], in_file = [], sent = [], stdout = []\<rparr> [([0, 4, 0, 0], (''host'', 4001))]
     = (SysExit 1, \<lparr>block_number = 2, out_file = [1], in_file = [], sent = [], stdout = [ProtocolError]\<rparr>)
   \<and> fst (check_remote_file ''host'' 69 (str_of ''f'') [([0, 4, 0, 0], (''host'', 4001))]) = Raised ProtocolError
   \<and> put_loop \<lparr>block_number = 2, out_file = [], in_file = [1], sent = [], stdout = []\<rparr> [([0, 3, 0, 1], (''host'', 4001))]
     = (SysExit 1, \<lparr>block_number = 2, out_file = [], in_file = [1], sent = [], stdout = [ProtocolError]\<rparr>)
   \<and> fst (get_file ''host'' 69 (str_of ''f'') []) \<in> {Returned True, SysExit 1}
   \<and> fst (put_file ''host'' 69 [] (str_of ''f'') []) \<in> {Returned True, SysExit 1}
   \<and> get_file ''host'' 69 [233] [] = (Raised TFTPValueError, new_session [])
   \<and> put_file ''host'' 69 [] [233] []
     = (SysExit 1, (new_session [])\<lparr>stdout := [TFTPValueError]\<rparr>)"
proof -
  have f: "is_ascii_printable (str_of ''f'')"
    by (simp add: is_ascii_printable_iff str_of_def)
  have nf: "\<not> is_ascii_printable [233]" by (simp add: is_ascii_printable_iff)
  have o: "unpack_opcode [0, 9] = Inl TFTPValueError"
    "unpack_opcode [0, 3, 0] = Inr DAT" "unpack_opcode [0, 4, 0] = Inr ACK"
    "unpack_opcode [0, 5, 0, 1, 255, 0] = Inr ERR"
    "unpack_opcode [0, 4, 0, 0] = Inr 4" "unpack_opcode [0, 3, 0, 1] = Inr 3"
    by (simp_all add: unpack_opcode_Cons2 RRQ_def WRQ_def DAT_def ACK_def ERR_def)
  have d: "unpack_dat [0, 3, 0] = Inl StructError"
    "unpack_dat [0, 3, 0, 3, 7, 8] = Inr (3, [7, 8])"
    by (simp_all add: unpack_dat_short unpack_dat_Cons4 DAT_def)
  have a: "unpack_ack [0, 4, 0] = Inl StructError" "unpack_ack [0, 4, 0, 5] = Inr 5"
    "unpack_ack [0, 4, 255, 255] = Inr 65535"
    by (simp_all add: unpack_ack_length unpack_ack_4 ACK_def)
  have "bytes_decode [255] = Inl UnicodeDecodeError"
    by (subst bytes_decode.simps) (simp add: utf8_next_def)
  then have e: "unpack_err [0, 5, 0, 1, 255, 0] = Inl UnicodeDecodeError"
    "unpack_err [0, 5, 0, 2, 110, 111, 0] = Inr (2, [110, 111])"
    by (simp_all add: unpack_err_Cons4 ERR_def bytes_decode_ascii_Cons bytes_decode_Nil)
  note t = engine_failure_signalling [where server = "''host''" and port = 69 and filename = "str_of ''f''" and inbox = "[]" and source = "[]" and from_addr = "(''host'', 4001)" and later = "[]" and code = 2 and msg = "[110, 111]"]
  have w1: "get_loop \<lparr>block_number = 2, out_file = [1], in_file = [], sent = [], stdout = []\<rparr> [([0, 9], (''host'', 4001))]
     = (SysExit 1, \<lparr>block_number = 2, out_file = [1], in_file = [], sent = [], stdout = [TFTPValueError]\<rparr>)"
    using f o d a e t [where s = "\<lparr>block_number = 2, out_file = [1], in_file = [], sent = [], stdout = []\<rparr>" and packet = "[0, 9]" and e = TFTPValueError and bn = 3 and data = "[]" and opcode = 4]
    by (simp add: DAT_def ACK_def ERR_def ERR_FILE_NOT_FOUND_def del: get_loop.simps put_loop.simps)
  have w2: "put_loop \<lparr>block_number = 2, out_file = [], in_file = [1], sent = [], stdout = []\<rparr> [([0, 9], (''host'', 4001))]
     = (SysExit 1, \<lparr>block_number = 2, out_file = [], in_file = [1], sent = [], stdout = [TFTPValueError]\<rparr>)
   \<and> fst (check_remote_file ''host'' 69 (str_of ''f'') [([0, 9], (''host'', 4001))]) = Raised TFTPValueError"
    using f o d a e t [where s = "\<lparr>block_number = 2, out_file = [], in_file = [1], sent = [], stdout = []\<rparr>" and packet = "[0, 9]" and e = TFTPValueError and bn = 3 and data = "[]" and opcode = 4]
    by (simp add: DAT_def ACK_def ERR_def ERR_FILE_NOT_FOUND_def del: get_loop.simps put_loop.simps)
  have w3: "get_loop \<lparr>block_number = 2, out_file = [1], in_file = [], sent = [], stdout = []\<rparr> [([0, 3, 0], (''host'', 4001))]
     = (SysExit 1, \<lparr>block_number = 2, out_file = [1], in_file = [], sent = [], stdout = [StructError]\<rparr>)"
    using f o d a e t [where s = "\<lparr>block_number = 2, out_file = [1], in_file = [], sent = [], stdout = []\<rparr>" and packet = "[0, 3, 0]" and e = StructError and bn = 3 and data = "[]" and opcode = 4]
    by (simp add: DAT_def ACK_def ERR_def ERR_FILE_NOT_FOUND_def del: get_loop.simps put_loop.simps)
  have w4: "get_loop \<lparr>block_number = 2, out_file = [1], in_file = [], sent = [], stdout = []\<rparr> [([0, 3, 0, 3, 7, 8], (''host'', 4001))]
     = (SysExit 1, \<lparr>block_number = 2, out_file = [1], in_file = [], sent = [], stdout = [ProtocolError]\<rparr>)"
    using f o d a e t [where s = "\<lparr>block_number = 2, out_file = [1], in_file = [], sent = [], stdout = []\<rparr>" and packet = "[0, 3, 0, 3, 7, 8]" and e = StructError and bn = 3 and data = "[7, 8]" and opcode = 4]
    by (simp add: DAT_def ACK_def ERR_def ERR_FILE_NOT_FOUND_def del: get_loop.simps put_loop.simps)
  have w5: "put_loop \<lparr>block_number = 2, out_file = [], in_file = [1], sent = [], stdout = []\<rparr> [([0, 4, 0], (''host'', 4001))]
     = (SysExit 1, \<lparr>block_number = 2, out_file = [], in_file = [1], sent = [], stdout = [StructError]\<rparr>)"
    using f o d a e t [where s = "\<lparr>block_number = 2, out_file = [], in_file = [1], sent = [], stdout = []\<rparr>" and packet = "[0, 4, 0]" and e = StructError and bn = 3 and data = "[]" and opcode = 3]
    by (simp add: DAT_def ACK_def ERR_def ERR_FILE_NOT_FOUND_def del: get_loop.simps put_loop.simps)
  have w6: "put_loop \<lparr>block_number = 2, out_file = [], in_file = [1], sent = [], stdout = []\<rparr> [([0, 4, 0, 5], (''host'', 4001))]
     = (SysExit 1, \<lparr>block_number = 2, out_file = [], in_file = [1], sent = [], stdout = [ProtocolError]\<rparr>)"
    using f o d a e t [where s = "\<lparr>block_number = 2, out_file = [], in_file = [1], sent = [], stdout = []\<rparr>" and packet = "[0, 4, 0, 5]" and e = StructError and bn = 5 and data = "[]" and opcode = 3]
    by (simp add: DAT_def ACK_def ERR_def ERR_FILE_NOT_FOUND_def del: get_loop.simps put_loop.simps)
  have w7: "put_loop \<lparr>block_number = 65535, out_file = [], in_file = [1], sent = [], stdout = []\<rparr> [([0, 4, 255, 255], (''host'', 4001))]
     = (SysExit 1, \<lparr>block_number = 65536, out_file = [], in_file = [], sent = [], stdout = [TFTPValueError]\<rparr>)"
    using f o d a e t [where s = "\<lparr>block_number = 65535, out_file = [], in_file = [1], sent = [], stdout = []\<rparr>" and packet = "[0, 4, 255, 255]" and e = StructError and bn = 5 and data = "[]" and opcode = 3]
    by (simp add: DAT_def ACK_def ERR_def ERR_FILE_NOT_FOUND_def del: get_loop.simps put_loop.simps)
  have w8: "get_loop \<lparr>block_number = 2, out_file = [1], in_file = [], sent = [], stdout = []\<rparr> [([0, 5, 0, 1, 255, 0], (''host'', 4001))]
     = (SysExit 1, \<lparr>block_number = 2, out_file = [1], in_file = [], sent = [], stdout = [UnicodeDecodeError]\<rparr>)
   \<and> fst (check_remote_file ''host'' 69 (str_of ''f'') [([0, 5, 0, 1, 255, 0], (''host'', 4001))]) = Raised UnicodeDecodeError"
    using f o d a e t [where s = "\<lparr>block_number = 2, out_file = [1], in_file = [], sent = [], stdout = []\<rparr>" and packet = "[0, 5, 0, 1, 255, 0]" and e = UnicodeDecodeError and bn = 3 and data = "[]" and opcode = 4]
    by (simp add: DAT_def ACK_def ERR_def ERR_FILE_NOT_FOUND_def del: get_loop.simps put_loop.simps)
  have w9: "put_loop \<lparr>block_number = 2, out_file = [], in_file = [1], sent = [], stdout = []\<rparr> [([0, 5, 0, 1, 255, 0], (''host'', 4001))]
     = (SysExit 1, \<lparr>block_number = 2, out_file = [], in_file = [1], sent = [], stdout = [UnicodeDecodeError]\<rparr>)"
    using f o d a e t [where s = "\<lparr>block_number = 2, out_file = [], in_file = [1], sent = [], stdout = []\<rparr>" and packet = "[0, 5, 0, 1, 255, 0]" and e = UnicodeDecodeError and bn = 3 and data = "[]" and opcode = 3]
    by (simp add: DAT_def ACK_def ERR_def ERR_FILE_NOT_FOUND_def del: get_loop.simps put_loop.simps)
  have w10: "get_loop \<lparr>block_number = 2, out_file = [1], in_file = [], sent = [], stdout = []\<rparr> [([0, 5, 0, 2, 110, 111, 0], (''host'', 4001))]
     = (SysExit 1, \<lparr>block_number = 2, out_file = [1], in_file = [], sent = [], stdout = [Err 2 [110, 111]]\<rparr>)
   \<and> fst (check_remote_file ''host'' 69 (str_of ''f'') [([0, 5, 0, 2, 110, 111, 0], (''host'', 4001))]) = Raised (Err 2 (str_of ''File existence check error''))"
    using f o d a e t [where s = "\<lparr>block_number = 2, out_file = [1], in_file = [], sent = [], stdout = []\<rparr>" and packet = "[0, 5, 0, 2, 110, 111, 0]" and e = StructError and bn = 3 and data = "[]" and opcode = 4]
    by (simp add: DAT_def ACK_def ERR_def ERR_FILE_NOT_FOUND_def del: get_loop.simps put_loop.simps)
  have w11: "put_loop \<lparr>block_number = 2, out_file = [], in_file = [1], sent = [], stdout = []\<rparr> [([0, 5, 0, 2, 110, 111, 0], (''host'', 4001))]
     = (SysExit 1, \<lparr>block_number = 2, out_file = [], in_file = [1], sent = [], stdout = [Err 2 [110, 111]]\<rparr>)"
    using f o d a e t [where s = "\<lparr>block_number = 2, out_file = [], in_file = [1], sent = [], stdout = []\<rparr>" and packet = "[0, 5, 0, 2, 110, 111, 0]" and e = StructError and bn = 3 and data = "[]" and opcode = 3]
    by (simp add: DAT_def ACK_def ERR_def ERR_FILE_NOT_FOUND_def del: get_loop.simps put_loop.simps)
  have w12: "get_loop \<lparr>block_number = 2, out_file = [1], in_file = [], sent = [], stdout = []\<rparr> [([0, 4, 0, 0], (''host'', 4001))]
     = (SysExit 1, \<lparr>block_number = 2, out_file = [1], in_file = [], sent = [], stdout = [ProtocolError]\<rparr>)
   \<and> fst (check_remote_file ''host'' 69 (str_of ''f'') [([0, 4, 0, 0], (''host'', 4001))]) = Raised ProtocolError"
    using f o d a e t [where s = "\<lparr>block_number = 2, out_file = [1], in_file = [], sent = [], stdout = []\<rparr>" and packet = "[0, 4, 0, 0]" and e = StructError and bn = 3 and data = "[]" and opcode = 4]
    by (simp add: DAT_def ACK_def ERR_def ERR_FILE_NOT_FOUND_def del: get_loop.simps put_loop.simps)
  have w13: "put_loop \<lparr>block_number = 2, out_file = [], in_file = [1], sent = [], stdout = []\<rparr> [([0, 3, 0, 1], (''host'', 4001))]
     = (SysExit 1, \<lparr>block_number = 2, out_file = [], in_file = [1], sent = [], stdout = [ProtocolError]\<rparr>)"
    using f o d a e t [where s = "\<lparr>block_number = 2, out_file = [], in_file = [1], sent = [], stdout = []\<rparr>" and packet = "[0, 3, 0, 1]" and e = StructError and bn = 3 and data = "[]" and opcode = 3]
    by (simp add: DAT_def ACK_def ERR_def ERR_FILE_NOT_FOUND_def del: get_loop.simps put_loop.simps)
  have w14: "fst (get_file ''host'' 69 (str_of ''f'') []) \<in> {Returned True, SysExit 1}
   \<and> fst (put_file ''host'' 69 [] (str_of ''f'') []) \<in> {Returned True, SysExit 1}"
    using f t [where s = "new_session []" and packet = "[]" and e = StructError and bn = 3
        and data = "[]" and opcode = 3]
    by simp
  have w15: "get_file ''host'' 69 [233] [] = (Raised TFTPValueError, new_session [])
   \<and> put_file ''host'' 69 [] [233] []
     = (SysExit 1, (new_session [])\<lparr>stdout := [TFTPValueError]\<rparr>)"
    using nf engine_failure_signalling [where server = "''host''" and port = 69
        and filename = "[233]" and inbox = "[]" and source = "[]"]
    by simp
  from w1 w2 w3 w4 w5 w6 w7 w8 w9 w10 w11 w12 w13 w14 w15 show ?thesis by (intro conjI) simp_all
qed

end
